(* ===== verification/Prelude.thy ===== *)
theory Prelude
  imports Complex_Main "HOL-Library.Sublist"
begin

text \<open>
  Shared vocabulary of the development of \<^verbatim>\<open>src/transcribe_app_gui.py\<close>:
  the Python exceptions the program can raise, the propagation of an exception
  through a sequence of statements (\<open>exc_bind\<close>), the collections of rewrite
  rules the component theories fill, and generic lemmas on lists, sublists and
  sums that the component proofs share.
\<close>

section \<open>Python values and exceptions\<close>

text \<open>
  Python strings are modelled as \<^typ>\<open>string\<close>, lists of characters each of which
  is a Unicode code point below 256 (see \<open>PyStr\<close>); the program's literals and the
  keywords it searches for are ASCII.
\<close>

type_synonym pystr = string

text \<open>
  The exceptions the program can raise. \<open>KeyError k\<close> is a missing dictionary key
  \<open>k\<close>; \<open>ModelError\<close> is any exception raised inside the speech-recognition model
  (unreadable audio, unsupported format); \<open>OSError p\<close> is a failed
  \<^verbatim>\<open>open(p, "w")\<close>; \<open>TypeError\<close> is a call of the model on \<^verbatim>\<open>None\<close>.
\<close>

datatype py_error = KeyError pystr | ModelError | OSError pystr | TypeError

text \<open>
  A statement that raises skips the rest of its block: \<open>exc_bind r k\<close> runs the
  continuation \<open>k\<close> on the value of \<open>r\<close>, and passes an exception on unchanged.
\<close>

fun exc_bind :: "'e + 'a \<Rightarrow> ('a \<Rightarrow> 'e + 'b) \<Rightarrow> 'e + 'b" where
  "exc_bind (Inl e) k = Inl e"
| "exc_bind (Inr v) k = k v"

named_theorems py_simps "evaluation rules of the Python builtins of the model"
named_theorems handler_simps "unfolding rules of the GUI handlers"

section \<open>Generic lemmas\<close>

lemma exc_bind_eq_Inr [simp]:
  "exc_bind r k = Inr y \<longleftrightarrow> (\<exists>v. r = Inr v \<and> k v = Inr y)"
  by (cases r) auto

lemma exc_bind_eq_Inl:
  "exc_bind r k = Inl e \<longleftrightarrow> r = Inl e \<or> (\<exists>v. r = Inr v \<and> k v = Inl e)"
  by (cases r) auto

lemma exc_bind_Inr_right [simp]: "exc_bind r Inr = r"
  by (cases r) auto

lemma subseq_map_filter [intro]: "subseq (map f (filter P xs)) (map f xs)"
  by (rule subseq_map) (rule subseq_filter_left)

lemma those_map_Some [simp]: "those (map Some xs) = Some xs"
  by (induction xs) auto

lemma those_eq_None_iff: "those xs = None \<longleftrightarrow> None \<in> set xs"
  by (induction xs) (auto split: option.splits)

lemma those_eq_Some_iff: "those xs = Some ys \<longleftrightarrow> xs = map Some ys"
proof (induction xs arbitrary: ys)
  case Nil
  then show ?case by auto
next
  case (Cons x xs)
  then show ?case by (cases ys) (auto split: option.splits)
qed

end
