(* ===== verification/PyStr.thy ===== *)
theory PyStr
  imports Prelude
begin

text \<open>
  The Python string builtins that \<^verbatim>\<open>src/transcribe_app_gui.py\<close> calls:
  \<^verbatim>\<open>str.lower\<close> (line 18), the substring test \<^verbatim>\<open>keyword in segment_text\<close>
  (line 19), \<^verbatim>\<open>" ".join\<close> (line 22) and \<^verbatim>\<open>os.path.basename\<close> (line 74).
  Each is an executable function written the way CPython computes it on the
  inputs the program gives it, and each is related to its library specification:
  the substring search is equivalent to \<^const>\<open>sublist\<close>, lower-casing is
  idempotent, and the joins and splits used to state the specification's laws on
  words fit together.
\<close>

section \<open>Lower-casing\<close>

text \<open>
  A character is a Unicode code point below 256 (the Latin-1 block), so a
  \<open>pystr\<close> is a Python \<^verbatim>\<open>str\<close> all of whose characters lie in that block.
  CPython's \<^verbatim>\<open>str.lower\<close> maps this block into itself: it adds 32 to the
  upper-case letters \<open>A\<close>..\<open>Z\<close> (65..90) and to the Latin-1 capitals, A grave to
  Thorn (192..222) except the multiplication sign (215), and leaves every other
  code point unchanged (sharp s, the micro sign and the ordinal indicators
  included, which are lower-case already).
\<close>

definition is_upper_code :: "nat \<Rightarrow> bool" where
  "is_upper_code n \<longleftrightarrow> (65 \<le> n \<and> n \<le> 90) \<or> (192 \<le> n \<and> n \<le> 222 \<and> n \<noteq> 215)"

definition lower_char :: "char \<Rightarrow> char" where
  "lower_char c =
     (let n = (of_char c :: nat) in if is_upper_code n then char_of (n + 32) else c)"

definition py_lower :: "pystr \<Rightarrow> pystr" where
  "py_lower s = map lower_char s"

section \<open>Substring test\<close>

text \<open>
  \<^verbatim>\<open>needle in hay\<close> scans the positions of \<open>hay\<close> from the left and compares
  \<open>needle\<close> with the text starting there; the empty needle occurs everywhere.
\<close>

fun starts_with :: "pystr \<Rightarrow> pystr \<Rightarrow> bool" where
  "starts_with [] _ = True"
| "starts_with (x # xs) [] = False"
| "starts_with (x # xs) (y # ys) = (x = y \<and> starts_with xs ys)"

fun py_in :: "pystr \<Rightarrow> pystr \<Rightarrow> bool" where
  "py_in needle [] = (needle = [])"
| "py_in needle (h # hs) = (starts_with needle (h # hs) \<or> py_in needle hs)"

section \<open>Join\<close>

text \<open>\<^verbatim>\<open>sep.join(xs)\<close>: the elements in order, \<open>sep\<close> between neighbours.\<close>

fun py_join :: "pystr \<Rightarrow> pystr list \<Rightarrow> pystr" where
  "py_join sep [] = []"
| "py_join sep [x] = x"
| "py_join sep (x # y # ys) = x @ sep @ py_join sep (y # ys)"

section \<open>Base name of a path\<close>

text \<open>\<^verbatim>\<open>os.path.basename(p)\<close> on POSIX: the text after the last \<open>/\<close>.\<close>

definition basename :: "pystr \<Rightarrow> pystr" where
  "basename p = rev (takeWhile (\<lambda>c. c \<noteq> CHR ''/'') (rev p))"

section \<open>Splitting (specification)\<close>

text \<open>
  \<^verbatim>\<open>s.split(c)\<close> for a one-character separator: the pieces between the
  occurrences of \<open>c\<close>, empty pieces included (\<^verbatim>\<open>"".split(" ") == [""]\<close>).
  The program does not call it; the specification states the filter's
  idempotence (section 8) by splitting the output into words with it.
\<close>

fun py_split :: "char \<Rightarrow> pystr \<Rightarrow> pystr list" where
  "py_split c [] = [[]]"
| "py_split c (x # xs) =
     (let ws = py_split c xs in if x = c then [] # ws else (x # hd ws) # tl ws)"

section \<open>Lemmas\<close>

subsection \<open>Lower-casing\<close>

lemma lower_char_upper:
  "is_upper_code (of_char c) \<Longrightarrow> (of_char (lower_char c) :: nat) = of_char c + 32"
  by (auto simp: lower_char_def Let_def is_upper_code_def)

lemma lower_char_other: "\<not> is_upper_code (of_char c) \<Longrightarrow> lower_char c = c"
  unfolding lower_char_def Let_def by (rule if_not_P)

lemma lower_char_idem [simp]: "lower_char (lower_char c) = lower_char c"
proof (cases "is_upper_code (of_char c)")
  case True
  then have "\<not> is_upper_code (of_char (lower_char c))"
    by (simp add: lower_char_upper) (auto simp: is_upper_code_def)
  then show ?thesis by (rule lower_char_other)
next
  case False
  then show ?thesis by (simp add: lower_char_other)
qed

lemma py_lower_Nil [simp, py_simps]: "py_lower [] = []"
  and py_lower_Cons [simp, py_simps]: "py_lower (c # s) = lower_char c # py_lower s"
  and py_lower_append [simp]: "py_lower (s @ t) = py_lower s @ py_lower t"
  by (simp_all add: py_lower_def)

lemma length_py_lower [simp]: "length (py_lower s) = length s"
  by (simp add: py_lower_def)

lemma py_lower_idem [simp]: "py_lower (py_lower s) = py_lower s"
  by (induction s) simp_all

lemma py_lower_fixed_sublist: "sublist w s \<Longrightarrow> py_lower s = s \<Longrightarrow> py_lower w = w"
proof -
  assume "sublist w s" and lw: "py_lower s = s"
  then obtain ps ss where s: "s = ps @ w @ ss" by (auto simp: sublist_def)
  with lw have "py_lower ps @ py_lower w @ py_lower ss = ps @ w @ ss" by simp
  then show "py_lower w = w" by simp
qed

subsection \<open>Substring test\<close>

lemma starts_with_iff_prefix [simp]: "starts_with n h \<longleftrightarrow> prefix n h"
  by (induction n h rule: starts_with.induct) auto

lemma py_in_iff_sublist [simp]: "py_in n h \<longleftrightarrow> sublist n h"
  by (induction h) (auto simp: sublist_Cons_right)

subsection \<open>Join\<close>

lemma py_join_Cons:
  "py_join sep (x # xs) = (if xs = [] then x else x @ sep @ py_join sep xs)"
  by (cases xs) simp_all

lemma py_lower_py_join: "py_lower (py_join sep xs) = py_join (py_lower sep) (map py_lower xs)"
  by (induction sep xs rule: py_join.induct) simp_all

lemma lower_char_space [simp]: "lower_char CHR '' '' = CHR '' ''"
  by (simp add: lower_char_def is_upper_code_def)

section \<open>Properties of the builtins\<close>

subsection \<open>Splitting\<close>

lemma py_split_not_Nil [simp]: "py_split c s \<noteq> []"
  by (induction s) (auto simp: Let_def)

lemma py_join_split: "py_join [c] (py_split c s) = s"
proof (induction s)
  case Nil
  then show ?case by simp
next
  case (Cons x xs)
  obtain w ws where ws: "py_split c xs = w # ws"
    using py_split_not_Nil by (metis neq_Nil_conv)
  with Cons show ?case by (auto simp: Let_def py_join_Cons split: if_splits)
qed

lemma py_split_append_sep: "py_split c (a @ c # b) = py_split c a @ py_split c b"
proof (induction a)
  case Nil
  then show ?case by (simp add: Let_def)
next
  case (Cons x xs)
  obtain w ws where ws: "py_split c xs = w # ws"
    using py_split_not_Nil by (metis neq_Nil_conv)
  with Cons show ?case by (auto simp: Let_def)
qed

lemma py_split_py_join: "xs \<noteq> [] \<Longrightarrow> py_split c (py_join [c] xs) = concat (map (py_split c) xs)"
proof (induction "[c]" xs rule: py_join.induct)
  case (3 x y ys)
  then show ?case by (simp add: py_split_append_sep)
qed simp_all

lemma prefix_hd_py_split: "prefix (hd (py_split c s)) s"
  by (induction s) (auto simp: Let_def)

lemma sublist_py_split: "w \<in> set (py_split c s) \<Longrightarrow> sublist w s \<and> c \<notin> set w"
proof (induction s arbitrary: w)
  case Nil
  then show ?case by simp
next
  case (Cons x xs)
  obtain v vs where vs: "py_split c xs = v # vs"
    using py_split_not_Nil by (metis neq_Nil_conv)
  show ?case
  proof (cases "x = c")
    case True
    with Cons.prems vs have "w = [] \<or> w \<in> set (py_split c xs)" by auto
    with Cons.IH True show ?thesis by (auto simp: sublist_Cons_right)
  next
    case False
    with Cons.prems vs have "w = x # v \<or> w \<in> set vs" by auto
    then show ?thesis
    proof
      assume w: "w = x # v"
      from Cons.IH [of v] vs have "c \<notin> set v" by simp
      moreover from prefix_hd_py_split [of c xs] vs have "prefix (x # v) (x # xs)" by simp
      ultimately show ?thesis using w False by auto
    next
      assume "w \<in> set vs"
      with Cons.IH [of w] vs show ?thesis by (auto simp: sublist_Cons_right)
    qed
  qed
qed

end
