(* ===== verification/AdFilter.thy ===== *)
theory AdFilter
  imports PyStr
begin

text \<open>
  The segment filter \<^verbatim>\<open>remove_ads\<close> of \<^verbatim>\<open>src/transcribe_app_gui.py\<close>
  (lines 8--22). The speech-recognition result is a dictionary whose key
  \<^verbatim>\<open>"segments"\<close> holds a list of dictionaries with a key \<^verbatim>\<open>"text"\<close>; a
  missing key is \<open>None\<close> here, so that the \<^verbatim>\<open>KeyError\<close> the code raises is a
  branch of the model. The loop of lines 17--20 is \<open>filter_loop\<close>, with the
  list \<^verbatim>\<open>filtered_segments\<close> as its accumulator; \<open>remove_ads_with\<close> is the
  function over any keyword list and \<open>remove_ads\<close> fixes the code's six keywords.
  The abstract specification \<open>filter_spec\<close> says what the filter promises:
  the lower-cased texts that contain no keyword as a contiguous sublist, in
  order, joined by one space. The lemmas prove that the code implements it, on
  every branch, errors included, and derive the properties the specification
  lists.
\<close>

section \<open>Data\<close>

record segment =
  seg_text :: "pystr option"
  seg_start :: real
  seg_end :: real

record transcription_result =
  res_text :: pystr
  res_segments :: "segment list option"

section \<open>The filter\<close>

definition ad_keywords :: "pystr list" where
  "ad_keywords =
     [''sponsored by'', ''brought to you by'', ''thanks to our sponsor'',
      ''use promo code'', ''limited-time offer'', ''our partnership with'']"

text \<open>\<^verbatim>\<open>any(keyword in segment_text for keyword in ad_keywords)\<close>\<close>

definition is_ad_text :: "pystr list \<Rightarrow> pystr \<Rightarrow> bool" where
  "is_ad_text kws segment_text = list_ex (\<lambda>keyword. py_in keyword segment_text) kws"

fun filter_loop :: "pystr list \<Rightarrow> segment list \<Rightarrow> pystr list \<Rightarrow> py_error + pystr list" where
  "filter_loop kws [] filtered = Inr filtered"
| "filter_loop kws (seg # segs) filtered =
     (case seg_text seg of
        None \<Rightarrow> Inl (KeyError ''text'')
      | Some t \<Rightarrow>
          (let segment_text = py_lower t
           in filter_loop kws segs
                (if \<not> is_ad_text kws segment_text then filtered @ [segment_text] else filtered)))"

definition remove_ads_with :: "pystr list \<Rightarrow> transcription_result \<Rightarrow> py_error + pystr" where
  "remove_ads_with kws r =
     (case res_segments r of
        None \<Rightarrow> Inl (KeyError ''segments'')
      | Some segs \<Rightarrow> exc_bind (filter_loop kws segs []) (\<lambda>filtered. Inr (py_join '' '' filtered)))"

definition remove_ads :: "transcription_result \<Rightarrow> py_error + pystr" where
  "remove_ads r = remove_ads_with ad_keywords r"

section \<open>Abstract specification\<close>

definition contains_keyword :: "pystr list \<Rightarrow> pystr \<Rightarrow> bool" where
  "contains_keyword kws st \<longleftrightarrow> (\<exists>k \<in> set kws. sublist k st)"

definition kept_spec :: "pystr list \<Rightarrow> pystr list \<Rightarrow> pystr list" where
  "kept_spec kws texts = filter (\<lambda>st. \<not> contains_keyword kws st) (map py_lower texts)"

definition filter_spec :: "pystr list \<Rightarrow> pystr list \<Rightarrow> pystr" where
  "filter_spec kws texts = py_join '' '' (kept_spec kws texts)"

text \<open>A segment with a text, as the recogniser produces it (test fixture).\<close>

definition mk_seg :: "pystr \<Rightarrow> real \<Rightarrow> real \<Rightarrow> segment" where
  "mk_seg t a b = \<lparr>seg_text = Some t, seg_start = a, seg_end = b\<rparr>"

section \<open>Lemmas\<close>

lemma is_ad_text_iff [simp]: "is_ad_text kws st \<longleftrightarrow> contains_keyword kws st"
  by (simp add: is_ad_text_def contains_keyword_def list_ex_iff)

lemma filter_loop_eq:
  "filter_loop kws segs acc =
     (case those (map seg_text segs) of
        None \<Rightarrow> Inl (KeyError ''text'')
      | Some ts \<Rightarrow> Inr (acc @ kept_spec kws ts))"
proof (induction segs arbitrary: acc)
  case Nil
  then show ?case by (simp add: kept_spec_def)
next
  case (Cons seg segs)
  then show ?case
    by (cases "seg_text seg") (auto simp: kept_spec_def split: option.splits)
qed

lemma remove_ads_with_eq:
  "res_segments r = Some segs \<Longrightarrow> those (map seg_text segs) = Some ts \<Longrightarrow>
   remove_ads_with kws r = Inr (filter_spec kws ts)"
  by (simp add: remove_ads_with_def filter_loop_eq filter_spec_def)

lemma kept_spec_idem: "kept_spec kws (kept_spec kws ts) = kept_spec kws ts"
  by (simp add: kept_spec_def filter_map comp_def)

lemma sublist_keyword_free:
  "sublist w x \<Longrightarrow> \<not> contains_keyword kws x \<Longrightarrow> \<not> contains_keyword kws w"
  unfolding contains_keyword_def by (metis sublist_order.order.trans)

lemma words_of_kept:
  assumes "kept_spec kws ts \<noteq> []"
    and "w \<in> set (py_split CHR '' '' (py_join '' '' (kept_spec kws ts)))"
  shows "py_lower w = w \<and> \<not> contains_keyword kws w"
proof -
  from assms(1) have "py_split CHR '' '' (py_join '' '' (kept_spec kws ts)) =
      concat (map (py_split CHR '' '') (kept_spec kws ts))"
    by (rule py_split_py_join)
  with assms(2) obtain x where x: "x \<in> set (kept_spec kws ts)"
    and wx: "w \<in> set (py_split CHR '' '' x)"
    by auto
  from wx have sub: "sublist w x" by (simp add: sublist_py_split)
  from x obtain t where xt: "x = py_lower t" and nk: "\<not> contains_keyword kws x"
    by (auto simp: kept_spec_def)
  from sub have "py_lower w = w" by (rule py_lower_fixed_sublist) (simp add: xt)
  moreover from sub nk have "\<not> contains_keyword kws w" by (rule sublist_keyword_free)
  ultimately show ?thesis by blast
qed

lemma kept_spec_words:
  assumes "kept_spec kws ts \<noteq> []"
  shows "kept_spec kws (py_split CHR '' '' (py_join '' '' (kept_spec kws ts))) =
         py_split CHR '' '' (py_join '' '' (kept_spec kws ts))"
    (is "kept_spec kws ?ws = ?ws")
proof -
  have m: "map py_lower ?ws = ?ws"
    by (intro map_idI) (blast dest: words_of_kept [OF assms])
  have f: "filter (\<lambda>st. \<not> contains_keyword kws st) ?ws = ?ws"
    by (intro filter_True) (blast dest: words_of_kept [OF assms])
  show ?thesis by (simp only: kept_spec_def [of kws ?ws] m f)
qed

lemma filter_spec_words:
  "filter_spec kws (py_split CHR '' '' (filter_spec kws ts)) = filter_spec kws ts"
proof (cases "kept_spec kws ts = []")
  case True
  have "kept_spec kws [[]] = [] \<or> kept_spec kws [[]] = [[]]"
    by (simp add: kept_spec_def)
  then have "py_join '' '' (kept_spec kws [[]]) = []" by auto
  with True show ?thesis by (simp add: filter_spec_def)
next
  case False
  then show ?thesis by (simp add: filter_spec_def kept_spec_words py_join_split)
qed

lemma remove_ads_with_Inr:
  "remove_ads_with kws r = Inr out \<Longrightarrow>
   \<exists>segs ts. res_segments r = Some segs \<and> those (map seg_text segs) = Some ts \<and>
             out = filter_spec kws ts"
  by (auto simp: remove_ads_with_def filter_loop_eq filter_spec_def split: option.splits)

lemma filter_spec_lower: "py_lower (filter_spec kws ts) = filter_spec kws ts"
proof -
  have "map py_lower (kept_spec kws ts) = kept_spec kws ts"
    by (rule map_idI) (auto simp: kept_spec_def)
  then show ?thesis by (simp add: filter_spec_def py_lower_py_join)
qed

lemma remove_ads_with_lower: "remove_ads_with kws r = Inr t \<Longrightarrow> py_lower t = t"
  by (auto dest: remove_ads_with_Inr simp: filter_spec_lower)

section \<open>Properties of the filter\<close>

text \<open>
  C1. Refinement: on every input, \<^verbatim>\<open>remove_ads\<close> over a keyword list either raises
  \<^verbatim>\<open>KeyError('segments')\<close> when the result has no segment list, raises
  \<^verbatim>\<open>KeyError('text')\<close> when some segment has no text, or returns the abstract
  specification: the lower-cased texts containing no keyword, in order, joined by
  single spaces.
\<close>

theorem remove_ads_refines_spec:
  "remove_ads_with kws r =
     (case res_segments r of
        None \<Rightarrow> Inl (KeyError ''segments'')
      | Some segs \<Rightarrow>
          (case those (map seg_text segs) of
             None \<Rightarrow> Inl (KeyError ''text'')
           | Some ts \<Rightarrow> Inr (filter_spec kws ts)))"
  by (simp add: remove_ads_with_def filter_loop_eq filter_spec_def split: option.splits)

text \<open>
  C7. Idempotence: filtering again the segments that a first run kept, with the
  same keywords, gives the same transcript.
\<close>

theorem remove_ads_idempotent:
  assumes "res_segments r = Some segs" and "those (map seg_text segs) = Some ts"
    and "res_segments r' = Some segs'" and "map seg_text segs' = map Some (kept_spec kws ts)"
  shows "remove_ads_with kws r' = remove_ads_with kws r"
  using assms by (simp add: remove_ads_with_eq filter_spec_def kept_spec_idem)

theorem remove_ads_idempotent_witness:
  "remove_ads_with ad_keywords
     \<lparr>res_text = [], res_segments = Some [mk_seg ''let's begin'' 0 1]\<rparr>
   = remove_ads_with ad_keywords
     \<lparr>res_text = [], res_segments = Some [mk_seg ''Sponsored by X'' 0 1, mk_seg ''Let's begin'' 1 2]\<rparr>"
proof -
  have k: "kept_spec ad_keywords [''Sponsored by X'', ''Let's begin''] = [''let's begin'']"
    by code_simp
  show ?thesis
    by (rule remove_ads_idempotent [where ts = "[''Sponsored by X'', ''Let's begin'']"])
      (simp add: mk_seg_def k)+
qed

text \<open>
  C8. Error path: a segment without a \<^verbatim>\<open>"text"\<close> key makes \<^verbatim>\<open>remove_ads\<close> raise
  \<^verbatim>\<open>KeyError('text')\<close>, whatever the other segments hold; the code does not treat
  the missing text as empty.
\<close>

theorem remove_ads_missing_text:
  assumes "res_segments r = Some segs" and "seg \<in> set segs" and "seg_text seg = None"
  shows "remove_ads_with kws r = Inl (KeyError ''text'')"
proof -
  from assms(2,3) have "those (map seg_text segs) = None"
    by (force simp: those_eq_None_iff)
  with assms(1) show ?thesis by (simp add: remove_ads_with_def filter_loop_eq)
qed

theorem remove_ads_missing_text_witness:
  "remove_ads \<lparr>res_text = [], res_segments = Some
      [mk_seg ''Hello'' 0 1, \<lparr>seg_text = None, seg_start = 1, seg_end = 2\<rparr>]\<rparr>
   = Inl (KeyError ''text'')"
  unfolding remove_ads_def
  by (rule remove_ads_missing_text [where seg = "\<lparr>seg_text = None, seg_start = 1, seg_end = 2\<rparr>"])
    (simp add: mk_seg_def)+

text \<open>
  C9. The filter works segment by segment, so its output can contain a keyword
  that spans two kept segments: ``Sponsored'' and ``by Acme'' are both kept and
  their join contains ``sponsored by''.
\<close>

theorem remove_ads_output_may_contain_keyword:
  "\<exists>r out. remove_ads r = Inr out \<and> contains_keyword ad_keywords out"
proof -
  let ?r = "\<lparr>res_text = [], res_segments = Some [mk_seg ''Sponsored'' 0 1, mk_seg ''by Acme'' 1 2]\<rparr>"
  have "remove_ads ?r = Inr ''sponsored by acme''" by code_simp
  moreover have "contains_keyword ad_keywords ''sponsored by acme''" by code_simp
  ultimately show ?thesis by blast
qed

text \<open>
  C13. With no keywords, every segment is kept: the output is all the lower-cased
  texts joined by single spaces.
\<close>

theorem remove_ads_no_keywords:
  assumes "res_segments r = Some segs" and "those (map seg_text segs) = Some ts"
  shows "remove_ads_with [] r = Inr (py_join '' '' (map py_lower ts))"
  using assms by (simp add: remove_ads_with_eq filter_spec_def kept_spec_def contains_keyword_def)

theorem remove_ads_no_keywords_witness:
  "remove_ads_with [] \<lparr>res_text = [], res_segments = Some [mk_seg ''A'' 0 1, mk_seg ''B'' 1 2]\<rparr>
   = Inr (py_join '' '' (map py_lower [''A'', ''B'']))"
  by (rule remove_ads_no_keywords) (simp add: mk_seg_def)+


text \<open>
  C16. The specification's idempotence with word splitting (section 8): splitting
  the output of \<^verbatim>\<open>remove_ads\<close> at its spaces and filtering these words again,
  with the same keywords, gives the same output. Every word lies inside one kept
  segment, so it contains no keyword, and it is already lower case; the join of the
  words is the output again. It holds for every keyword list, even though a
  keyword may span two kept segments (C9).
\<close>

theorem remove_ads_refilter_words:
  assumes "remove_ads_with kws r = Inr out" and "res_segments r' = Some segs'"
    and "map seg_text segs' = map Some (py_split CHR '' '' out)"
  shows "remove_ads_with kws r' = Inr out"
proof -
  from remove_ads_with_Inr [OF assms(1)] obtain ts where out: "out = filter_spec kws ts"
    by blast
  from assms(3) have "those (map seg_text segs') = Some (py_split CHR '' '' out)"
    by (simp add: those_eq_Some_iff)
  with assms(2) have "remove_ads_with kws r' = Inr (filter_spec kws (py_split CHR '' '' out))"
    by (rule remove_ads_with_eq)
  then show ?thesis by (simp add: out filter_spec_words)
qed

theorem remove_ads_refilter_words_witness:
  "remove_ads_with ad_keywords \<lparr>res_text = [], res_segments =
     Some (map (\<lambda>w. mk_seg w 0 0) (py_split CHR '' '' ''sponsored by acme'')) \<rparr>
   = Inr ''sponsored by acme''"
proof -
  have out: "remove_ads_with ad_keywords \<lparr>res_text = [], res_segments =
      Some [mk_seg ''Sponsored'' 0 1, mk_seg ''by Acme'' 1 2]\<rparr> = Inr ''sponsored by acme''"
    by code_simp
  show ?thesis
    by (rule remove_ads_refilter_words [OF out]) (simp add: mk_seg_def comp_def)+
qed

text \<open>
  C25. Word tokens (specification, section 8): the words of the output, split at
  the single space, are exactly the words of the kept lower-cased segment texts,
  one segment after the other, in order; no word of a dropped segment occurs and
  no two words of neighbouring segments are merged. An output with no kept
  segment is the empty string, whose split is one empty word.
\<close>

theorem remove_ads_word_tokens:
  assumes "remove_ads_with kws r = Inr out"
  shows "\<exists>segs ts. res_segments r = Some segs \<and> those (map seg_text segs) = Some ts \<and>
           py_split CHR '' '' out =
             (let kept = filter (\<lambda>t. \<not> contains_keyword kws t) (map py_lower ts)
              in if kept = [] then [[]] else concat (map (py_split CHR '' '') kept))"
proof -
  from remove_ads_with_Inr [OF assms] obtain segs ts where
    "res_segments r = Some segs" and "those (map seg_text segs) = Some ts"
    and "out = filter_spec kws ts" by blast
  then show ?thesis
    by (auto simp: filter_spec_def kept_spec_def py_split_py_join Let_def)
qed

theorem remove_ads_word_tokens_witness:
  "\<exists>segs ts. res_segments \<lparr>res_text = [], res_segments = Some
        [mk_seg ''Welcome to the show'' 0 1, mk_seg ''This episode is brought to you by Acme Corp'' 1 2,
         mk_seg ''Let's begin'' 2 3]\<rparr> = Some segs \<and> those (map seg_text segs) = Some ts \<and>
     py_split CHR '' '' ''welcome to the show let's begin'' =
       (let kept = filter (\<lambda>t. \<not> contains_keyword ad_keywords t) (map py_lower ts)
        in if kept = [] then [[]] else concat (map (py_split CHR '' '') kept))"
proof (rule remove_ads_word_tokens)
  show "remove_ads_with ad_keywords \<lparr>res_text = [], res_segments = Some
        [mk_seg ''Welcome to the show'' 0 1, mk_seg ''This episode is brought to you by Acme Corp'' 1 2,
         mk_seg ''Let's begin'' 2 3]\<rparr> = Inr ''welcome to the show let's begin''"
    by code_simp
qed

end
