(* ===== verification/Codec.thy ===== *)
theory Codec
  imports PyStr "HOL-Library.Word"
begin

text \<open>
  What \<^verbatim>\<open>saveTranscript\<close> puts on disk (\<^verbatim>\<open>src/transcribe_app_gui.py\<close>, lines
  106--112). The text it writes is not the string \<^verbatim>\<open>transcribeAudio\<close> gave the
  text area but \<^verbatim>\<open>self.text_area.toPlainText()\<close>: \<^verbatim>\<open>QTextEdit.setPlainText\<close>
  (line 89) inserts the string into a \<^verbatim>\<open>QTextDocument\<close>, where
  \<^verbatim>\<open>QTextCursor::insertText\<close> starts a new block at a line feed, at a carriage
  return and at a carriage return followed by a line feed (one block break for
  the pair); \<^verbatim>\<open>QTextDocument::toPlainText\<close> writes each block break as a line
  feed and replaces the no-break space U+00A0 by a plain space. On the model's
  alphabet (code points below 256) every other character comes back unchanged.
  \<open>qt_plain_text\<close> is that round trip. Then
  \<^verbatim>\<open>open(save_path, "w", encoding="utf-8")\<close> and \<^verbatim>\<open>f.write\<close> store the UTF-8
  encoding, \<open>utf8_encode\<close>: one byte for a code point below 128, two bytes (a lead
  byte \<open>0xC2\<close> or \<open>0xC3\<close> and a continuation byte) from 128 on.
\<close>

section \<open>The text area's plain text\<close>

definition qt_char :: "char \<Rightarrow> char" where
  "qt_char c = (if c = CHR 0x0D then CHR 0x0A else if c = CHR 0xA0 then CHR 0x20 else c)"

fun qt_plain_text :: "pystr \<Rightarrow> pystr" where
  "qt_plain_text (c # d # cs) =
     (if c = CHR 0x0D \<and> d = CHR 0x0A then CHR 0x0A # qt_plain_text cs
      else qt_char c # qt_plain_text (d # cs))"
| "qt_plain_text cs = map qt_char cs"

section \<open>UTF-8\<close>

type_synonym byte = "8 word"

definition utf8_encode_char :: "char \<Rightarrow> byte list" where
  "utf8_encode_char c =
     (let n = (of_char c :: nat)
      in if n < 128 then [word_of_nat n]
         else [word_of_nat (192 + n div 64), word_of_nat (128 + n mod 64)])"

definition utf8_encode :: "pystr \<Rightarrow> byte list" where
  "utf8_encode s = concat (map utf8_encode_char s)"

section \<open>Lemmas\<close>

lemma qt_plain_text_Nil_iff [simp]: "qt_plain_text s = [] \<longleftrightarrow> s = []"
  by (induction s rule: qt_plain_text.induct) auto

end
