(* ===== verification/App.thy ===== *)
theory App
  imports AdFilter Codec
begin

text \<open>
  The window class \<^verbatim>\<open>TranscriptionApp\<close> of \<^verbatim>\<open>src/transcribe_app_gui.py\<close>
  (lines 24--112) and its event loop (lines 114--118). The state \<open>app\<close> holds the
  widget properties the handlers read and write, the attributes
  \<^verbatim>\<open>audio_file\<close> and \<^verbatim>\<open>transcription_active\<close>, and the files the program has
  written. The speech-recognition model and the file system's permissions are the
  environment \<open>env\<close>. A user event is a click; Qt delivers a click only to an
  enabled button. The handlers \<^verbatim>\<open>transcribeAudio\<close> and
  \<^verbatim>\<open>cancelTranscription\<close> call \<^verbatim>\<open>QApplication.processEvents()\<close>, which runs the
  handlers of the events pending at that moment before the handler goes on; a
  click event therefore carries the list of events its handler's
  \<^verbatim>\<open>processEvents\<close> call delivers, and the handlers take that call as a
  parameter. \<open>dispatch\<close> and \<open>process_events\<close> tie them together.
\<close>

section \<open>State\<close>

text \<open>The texts the code puts on \<^verbatim>\<open>self.label\<close>.\<close>

datatype label_text =
    SelectPrompt        \<comment> \<open>"Select an MP3 file to transcribe"\<close>
  | Selected pystr      \<comment> \<open>"Selected: " followed by the base name\<close>
  | Transcribing        \<comment> \<open>"Transcribing... Please wait."\<close>
  | Complete            \<comment> \<open>"Transcription Complete!"\<close>
  | Canceled            \<comment> \<open>"Transcription Canceled!"\<close>
  | Canceling           \<comment> \<open>"Canceling transcription..."\<close>

record app =
  label :: label_text
  audio_file :: "pystr option"
  transcription_active :: bool
  transcribe_enabled :: bool
  cancel_enabled :: bool
  save_enabled :: bool
  progress_visible :: bool
  text_area :: pystr
  files :: "pystr \<rightharpoonup> byte list"

text \<open>
  The collaborators: \<^verbatim>\<open>self.model.transcribe(path, word_timestamps=True)\<close>, which
  returns a result or raises, and whether \<^verbatim>\<open>open(path, "w")\<close> succeeds.
\<close>

record env =
  transcribe :: "pystr \<Rightarrow> py_error + transcription_result"
  can_write :: "pystr \<Rightarrow> bool"

text \<open>
  A click on a button. \<open>ClickSelect p\<close> and \<open>ClickSave p\<close> carry the path the
  modal file dialog returns (the empty string when the user cancels it);
  \<open>ClickTranscribe es\<close> and \<open>ClickCancel es\<close> carry the events that the
  \<^verbatim>\<open>processEvents()\<close> call of their handler delivers.
\<close>

datatype event =
    ClickSelect pystr
  | ClickTranscribe "event list"
  | ClickCancel "event list"
  | ClickSave pystr

section \<open>Handlers\<close>

text \<open>\<^verbatim>\<open>__init__\<close> and \<^verbatim>\<open>initUI\<close>: the widgets' initial properties.\<close>

definition init_app :: "(pystr \<rightharpoonup> byte list) \<Rightarrow> app" where
  "init_app fs =
     \<lparr>label = SelectPrompt, audio_file = None, transcription_active = False,
      transcribe_enabled = False, cancel_enabled = False, save_enabled = False,
      progress_visible = False, text_area = [], files = fs\<rparr>"

definition openFileDialog :: "pystr \<Rightarrow> app \<Rightarrow> app" where
  "openFileDialog file_path s =
     (if file_path \<noteq> []
      then s\<lparr>audio_file := Some file_path, label := Selected (basename file_path),
             transcribe_enabled := True\<rparr>
      else s)"

text \<open>\<^verbatim>\<open>transcribeAudio\<close>, lines 81--84: the statements before \<^verbatim>\<open>processEvents\<close>.\<close>

definition transcribe_begin :: "app \<Rightarrow> app" where
  "transcribe_begin s =
     s\<lparr>transcription_active := True, label := Transcribing, progress_visible := True,
       cancel_enabled := True\<rparr>"

text \<open>
  \<^verbatim>\<open>transcribeAudio\<close>, lines 87--98: the blocking model call on the file selected
  now, then the check of \<^verbatim>\<open>transcription_active\<close> and the reset of the widgets.
  An exception of the model or of \<^verbatim>\<open>remove_ads\<close> leaves the handler at once.
\<close>

definition transcribe_end :: "env \<Rightarrow> app \<Rightarrow> py_error + app" where
  "transcribe_end env s =
     exc_bind (case audio_file s of None \<Rightarrow> Inl TypeError | Some p \<Rightarrow> transcribe env p)
       (\<lambda>result.
          exc_bind
            (if transcription_active s
             then exc_bind (remove_ads result)
                    (\<lambda>clean_transcript.
                       Inr (s\<lparr>text_area := clean_transcript, save_enabled := True,
                              label := Complete\<rparr>))
             else Inr (s\<lparr>label := Canceled\<rparr>))
            (\<lambda>s'. Inr (s'\<lparr>progress_visible := False, cancel_enabled := False,
                             transcription_active := False\<rparr>)))"

definition transcribeAudio ::
  "(app \<Rightarrow> py_error + app) \<Rightarrow> env \<Rightarrow> app \<Rightarrow> py_error + app" where
  "transcribeAudio processEvents env s =
     (if audio_file s = None then Inr s
      else exc_bind (processEvents (transcribe_begin s)) (transcribe_end env))"

definition cancelTranscription :: "(app \<Rightarrow> py_error + app) \<Rightarrow> app \<Rightarrow> py_error + app" where
  "cancelTranscription processEvents s =
     processEvents (s\<lparr>transcription_active := False, label := Canceling\<rparr>)"

text \<open>
  \<^verbatim>\<open>saveTranscript\<close>, lines 105--112: both reads of
  \<^verbatim>\<open>self.text_area.toPlainText()\<close> return \<open>qt_plain_text\<close> of the string last
  given to \<^verbatim>\<open>setPlainText\<close>; nothing to save, or the dialog cancelled, is an
  early return; \<^verbatim>\<open>open(save_path, "w", encoding="utf-8")\<close> raises \<^verbatim>\<open>OSError\<close> on
  a path that cannot be written, and otherwise the file holds the UTF-8 bytes of
  that plain text (\<open>utf8_encode\<close>), whatever it held before.
\<close>

definition saveTranscript :: "env \<Rightarrow> pystr \<Rightarrow> app \<Rightarrow> py_error + app" where
  "saveTranscript env save_path s =
     (if qt_plain_text (text_area s) = [] then Inr s
      else if save_path = [] then Inr s
      else if can_write env save_path
      then Inr (s\<lparr>files := (files s)(save_path \<mapsto> utf8_encode (qt_plain_text (text_area s)))\<rparr>)
      else Inl (OSError save_path))"

section \<open>Event delivery\<close>

text \<open>
  \<open>dispatch\<close> delivers one click to its button's handler if the button is enabled
  (the select button always is); \<open>process_events\<close> delivers a list of events in
  order and stops at the first exception, which PyQt turns into an abort of the
  process. The main loop \<^verbatim>\<open>app.exec()\<close> is \<open>run\<close>.
\<close>

fun dispatch :: "env \<Rightarrow> event \<Rightarrow> app \<Rightarrow> py_error + app"
and process_events :: "env \<Rightarrow> event list \<Rightarrow> app \<Rightarrow> py_error + app" where
  "dispatch env (ClickSelect p) s = Inr (openFileDialog p s)"
| "dispatch env (ClickTranscribe pending) s =
     (if transcribe_enabled s then transcribeAudio (process_events env pending) env s else Inr s)"
| "dispatch env (ClickCancel pending) s =
     (if cancel_enabled s then cancelTranscription (process_events env pending) s else Inr s)"
| "dispatch env (ClickSave p) s =
     (if save_enabled s then saveTranscript env p s else Inr s)"
| "process_events env [] s = Inr s"
| "process_events env (e # es) s = exc_bind (dispatch env e s) (process_events env es)"

definition run :: "env \<Rightarrow> (pystr \<rightharpoonup> byte list) \<Rightarrow> event list \<Rightarrow> py_error + app" where
  "run env fs es = process_events env es (init_app fs)"

section \<open>Invariants and reachable states\<close>

text \<open>
  \<open>wf\<close> holds in every state, also in the middle of a handler: the transcribe
  button is enabled exactly when a non-empty file path has been selected, and the
  text area is empty until a transcription has completed. \<open>idle\<close> holds whenever
  no handler runs.
\<close>

definition wf :: "app \<Rightarrow> bool" where
  "wf s \<longleftrightarrow>
     (case audio_file s of None \<Rightarrow> \<not> transcribe_enabled s | Some p \<Rightarrow> transcribe_enabled s \<and> p \<noteq> [])
     \<and> (save_enabled s \<or> text_area s = [])"

definition idle :: "app \<Rightarrow> bool" where
  "idle s \<longleftrightarrow> \<not> transcription_active s \<and> \<not> cancel_enabled s \<and> \<not> progress_visible s"

text \<open>
  The origin of what the window shows and writes: a text is a \<open>model_output\<close> when
  it is \<^verbatim>\<open>remove_ads\<close> of the model's result on some file, and \<open>outputs_only\<close>
  says that the text area shows nothing else and every file differs from the initial
  file system \<open>fs\<close> only by holding such a text.
\<close>

definition model_output :: "env \<Rightarrow> pystr \<Rightarrow> bool" where
  "model_output env t \<longleftrightarrow> (\<exists>p r. transcribe env p = Inr r \<and> remove_ads r = Inr t)"

definition outputs_only :: "env \<Rightarrow> (pystr \<rightharpoonup> byte list) \<Rightarrow> app \<Rightarrow> bool" where
  "outputs_only env fs s \<longleftrightarrow>
     (text_area s = [] \<or> model_output env (text_area s)) \<and>
     (\<forall>q. files s q = fs q \<or> (\<exists>t. files s q = Some (utf8_encode (qt_plain_text t)) \<and> model_output env t))"

text \<open>
  \<open>settled_label\<close>: the label shows none of the two texts that are meant to last
  only while a handler runs.
\<close>

definition settled_label :: "label_text \<Rightarrow> bool" where
  "settled_label l \<longleftrightarrow> l \<noteq> Transcribing \<and> l \<noteq> Canceling"

text \<open>
  The exceptions the collaborators can raise: the model's own, one of
  \<^verbatim>\<open>remove_ads\<close> on a result of the model, and the \<^verbatim>\<open>OSError\<close> of
  \<^verbatim>\<open>open(path, "w")\<close> on a non-empty path that cannot be written.
\<close>

definition raised_by :: "env \<Rightarrow> py_error \<Rightarrow> bool" where
  "raised_by env err \<longleftrightarrow>
     (\<exists>p. transcribe env p = Inl err) \<or>
     (\<exists>p r. transcribe env p = Inr r \<and> remove_ads r = Inl err) \<or>
     (\<exists>q. q \<noteq> [] \<and> \<not> can_write env q \<and> err = OSError q)"

text \<open>
  \<open>complete_shows_file\<close>: when the label reads "Transcription Complete!", the text
  area shows \<^verbatim>\<open>remove_ads\<close> of the model's result on the file selected now.
\<close>

definition complete_shows_file :: "env \<Rightarrow> app \<Rightarrow> bool" where
  "complete_shows_file env s \<longleftrightarrow>
     (label s = Complete \<longrightarrow>
        (\<exists>p r. audio_file s = Some p \<and> transcribe env p = Inr r \<and> remove_ads r = Inr (text_area s)))"

text \<open>
  \<open>label_names_file\<close>: a label "Selected: x" names the base name of the file
  selected now.
\<close>

definition label_names_file :: "app \<Rightarrow> bool" where
  "label_names_file s \<longleftrightarrow>
     (\<forall>x. label s = Selected x \<longrightarrow> (\<exists>p. audio_file s = Some p \<and> x = basename p))"

inductive reachable :: "env \<Rightarrow> app \<Rightarrow> bool" for env where
  start: "reachable env (init_app fs)"
| step: "reachable env s \<Longrightarrow> dispatch env e s = Inr s' \<Longrightarrow> reachable env s'"

text \<open>
  A test fixture: a model that recognises one segment in \<^verbatim>\<open>a.mp3\<close> and fails on
  every other file, a file system where only \<^verbatim>\<open>out.txt\<close> is writable, and the
  window after \<^verbatim>\<open>a.mp3\<close> was selected.
\<close>

definition demo_result :: transcription_result where
  "demo_result = \<lparr>res_text = '' Hi'', res_segments = Some [mk_seg '' Hi'' 0 1]\<rparr>"

definition demo_env :: env where
  "demo_env =
     \<lparr>transcribe = (\<lambda>p. if p = ''a.mp3'' then Inr demo_result else Inl ModelError),
      can_write = (\<lambda>p. p = ''out.txt'')\<rparr>"

definition demo_selected :: app where
  "demo_selected = openFileDialog ''a.mp3'' (init_app Map.empty)"

text \<open>
  Further fixtures: a model that never fails, and one whose only segment is an
  advertisement.
\<close>

definition calm_env :: env where
  "calm_env = \<lparr>transcribe = (\<lambda>p. Inr demo_result), can_write = (\<lambda>p. True)\<rparr>"

definition ad_result :: transcription_result where
  "ad_result =
     \<lparr>res_text = '' Sponsored by Acme'', res_segments = Some [mk_seg '' Sponsored by Acme'' 0 1]\<rparr>"

definition ad_env :: env where
  "ad_env = \<lparr>transcribe = (\<lambda>p. Inr ad_result), can_write = (\<lambda>p. True)\<rparr>"

text \<open>A model whose transcript contains a no-break space (U+00A0).\<close>

definition nbsp_text :: pystr where
  "nbsp_text = ''a'' @ [CHR 0xA0] @ ''b''"

definition nbsp_env :: env where
  "nbsp_env =
     \<lparr>transcribe = (\<lambda>p. Inr \<lparr>res_text = nbsp_text, res_segments = Some [mk_seg nbsp_text 0 1]\<rparr>),
      can_write = (\<lambda>p. True)\<rparr>"

declare openFileDialog_def [handler_simps] transcribe_begin_def [handler_simps]
  transcribeAudio_def [handler_simps] cancelTranscription_def [handler_simps]
  saveTranscript_def [handler_simps]

section \<open>Lemmas on the handlers\<close>

lemma wf_init [simp]: "wf (init_app fs)"
  and idle_init [simp]: "idle (init_app fs)"
  by (simp_all add: wf_def idle_def init_app_def)

lemma wf_frame [simp]:
  "wf (s\<lparr>label := l\<rparr>) = wf s"
  "wf (s\<lparr>transcription_active := b\<rparr>) = wf s"
  "wf (s\<lparr>cancel_enabled := b\<rparr>) = wf s"
  "wf (s\<lparr>progress_visible := b\<rparr>) = wf s"
  "wf (s\<lparr>files := fs\<rparr>) = wf s"
  by (simp_all add: wf_def split: option.splits)

lemma wf_openFileDialog: "wf s \<Longrightarrow> wf (openFileDialog p s)"
  by (auto simp: wf_def openFileDialog_def split: option.splits)

lemma wf_transcribe_begin [simp]: "wf (transcribe_begin s) = wf s"
  by (simp add: transcribe_begin_def)

lemma transcribe_end_Inr:
  "transcribe_end env s = Inr s' \<longleftrightarrow>
     (\<exists>p result. audio_file s = Some p \<and> transcribe env p = Inr result \<and>
        (if transcription_active s
         then (\<exists>clean. remove_ads result = Inr clean \<and>
                 s' = s\<lparr>text_area := clean, save_enabled := True, label := Complete,
                        progress_visible := False, cancel_enabled := False,
                        transcription_active := False\<rparr>)
         else s' = s\<lparr>label := Canceled, progress_visible := False, cancel_enabled := False,
                       transcription_active := False\<rparr>))"
  by (auto simp: transcribe_end_def split: option.splits if_splits)

lemma wf_transcribe_end: "transcribe_end env s = Inr s' \<Longrightarrow> wf s \<Longrightarrow> wf s'"
  by (auto simp: transcribe_end_Inr wf_def split: if_splits option.splits)

lemma idle_transcribe_end: "transcribe_end env s = Inr s' \<Longrightarrow> idle s'"
  by (auto simp: transcribe_end_Inr idle_def split: if_splits)

lemma wf_saveTranscript: "saveTranscript env p s = Inr s' \<Longrightarrow> wf s \<Longrightarrow> wf s'"
  by (auto simp: saveTranscript_def wf_def split: if_splits option.splits)

lemma wf_dispatch:
  "dispatch env e s = Inr s' \<Longrightarrow> wf s \<Longrightarrow> wf s'"
  "process_events env es s = Inr s' \<Longrightarrow> wf s \<Longrightarrow> wf s'"
proof (induction env e s and env es s arbitrary: s' and s' rule: dispatch_process_events.induct)
  case (1 env p s)
  then show ?case by (auto intro: wf_openFileDialog)
next
  case (2 env pending s)
  then show ?case
    by (auto simp: transcribeAudio_def wf_transcribe_end split: if_splits)
next
  case (3 env pending s)
  then show ?case
    by (auto simp: cancelTranscription_def split: if_splits)
next
  case (4 env p s)
  then show ?case by (auto intro: wf_saveTranscript split: if_splits)
qed auto

lemma idle_dispatch:
  assumes "dispatch env e s = Inr s'" and "idle s"
  shows "idle s'"
proof (cases e)
  case (ClickTranscribe pending)
  with assms show ?thesis
    by (auto simp: transcribeAudio_def idle_transcribe_end split: if_splits)
qed (use assms in \<open>auto simp: idle_def openFileDialog_def saveTranscript_def split: if_splits\<close>)

lemma reachable_wf_idle: "reachable env s \<Longrightarrow> wf s \<and> idle s"
proof (induction rule: reachable.induct)
  case (start fs)
  then show ?case by simp
next
  case (step s e s')
  then show ?case by (blast intro: wf_dispatch(1) idle_dispatch)
qed


lemma outputs_only_frame [simp]:
  "outputs_only env fs (s\<lparr>label := l\<rparr>) = outputs_only env fs s"
  "outputs_only env fs (s\<lparr>transcription_active := b\<rparr>) = outputs_only env fs s"
  "outputs_only env fs (transcribe_begin s) = outputs_only env fs s"
  by (simp_all add: outputs_only_def transcribe_begin_def)

lemma outputs_only_transcribe_end:
  "transcribe_end env s = Inr s' \<Longrightarrow> outputs_only env fs s \<Longrightarrow> outputs_only env fs s'"
  by (auto simp: transcribe_end_Inr outputs_only_def model_output_def split: if_splits)

lemma outputs_only_saveTranscript:
  "saveTranscript env p s = Inr s' \<Longrightarrow> outputs_only env fs s \<Longrightarrow> outputs_only env fs s'"
  by (auto simp: saveTranscript_def outputs_only_def split: if_splits)

lemma outputs_only_dispatch:
  "dispatch env e s = Inr s' \<Longrightarrow> outputs_only env fs s \<Longrightarrow> outputs_only env fs s'"
  "process_events env es s = Inr s' \<Longrightarrow> outputs_only env fs s \<Longrightarrow> outputs_only env fs s'"
proof (induction env e s and env es s arbitrary: s' and s' rule: dispatch_process_events.induct)
  case (1 env p s)
  then show ?case by (auto simp: openFileDialog_def outputs_only_def)
next
  case (2 env pending s)
  then show ?case
    by (auto simp: transcribeAudio_def intro: outputs_only_transcribe_end split: if_splits)
next
  case (3 env pending s)
  then show ?case by (auto simp: cancelTranscription_def split: if_splits)
next
  case (4 env p s)
  then show ?case by (auto intro: outputs_only_saveTranscript split: if_splits)
qed auto

lemma reachable_selected:
  assumes "reachable env s" and "audio_file s = Some p"
  shows "transcribe_enabled s \<and> \<not> transcription_active s \<and> \<not> cancel_enabled s \<and>
         \<not> progress_visible s"
  using reachable_wf_idle [OF assms(1)] assms(2) by (simp add: wf_def idle_def)

lemma reachable_demo_selected: "reachable demo_env demo_selected"
  by (rule reachable.step [OF reachable.start, of _ "ClickSelect ''a.mp3''"])
    (simp add: demo_selected_def)

lemma demo_selected_facts:
  "audio_file demo_selected = Some ''a.mp3''"
  "transcribe demo_env ''a.mp3'' = Inr demo_result"
  "remove_ads demo_result = Inr '' hi''"
  by (simp add: demo_selected_def openFileDialog_def init_app_def, simp add: demo_env_def,
      code_simp)

lemma audio_file_kept:
  "dispatch env e s = Inr s' \<Longrightarrow> audio_file s \<noteq> None \<Longrightarrow> audio_file s' \<noteq> None"
  "process_events env es s = Inr s' \<Longrightarrow> audio_file s \<noteq> None \<Longrightarrow> audio_file s' \<noteq> None"
proof (induction env e s and env es s arbitrary: s' and s' rule: dispatch_process_events.induct)
  case (2 env pending s)
  then show ?case
    by (auto simp: transcribeAudio_def transcribe_begin_def transcribe_end_Inr split: if_splits)
qed (auto simp: handler_simps split: if_splits)

lemma dispatch_transcribe_outcome:
  assumes "dispatch env (ClickTranscribe pending) s = Inr s'"
  shows "s' = s \<or> ((label s' = Complete \<or> label s' = Canceled) \<and> idle s')"
proof (cases "transcribe_enabled s \<and> audio_file s \<noteq> None")
  case True
  with assms obtain s1 where "transcribe_end env s1 = Inr s'"
    by (auto simp: transcribeAudio_def)
  then show ?thesis
    by (auto simp: transcribe_end_Inr idle_def split: if_splits)
qed (use assms in \<open>auto simp: transcribeAudio_def split: if_splits\<close>)

lemma settled_label_dispatch:
  assumes "dispatch env e s = Inr s'" and "idle s" and "settled_label (label s)"
  shows "settled_label (label s')"
proof (cases e)
  case (ClickTranscribe pending)
  with assms dispatch_transcribe_outcome show ?thesis by (fastforce simp: settled_label_def)
qed (use assms in \<open>auto simp: settled_label_def idle_def handler_simps split: if_splits\<close>)

lemma lower_text_dispatch:
  "dispatch env e s = Inr s' \<Longrightarrow> py_lower (text_area s) = text_area s \<Longrightarrow>
   py_lower (text_area s') = text_area s'"
  "process_events env es s = Inr s' \<Longrightarrow> py_lower (text_area s) = text_area s \<Longrightarrow>
   py_lower (text_area s') = text_area s'"
proof (induction env e s and env es s arbitrary: s' and s' rule: dispatch_process_events.induct)
  case (2 env pending s)
  then show ?case
    by (auto simp: transcribeAudio_def transcribe_begin_def transcribe_end_Inr remove_ads_def
        dest: remove_ads_with_lower split: if_splits)
qed (auto simp: handler_simps split: if_splits)

lemma transcribe_end_Inl:
  assumes "transcribe_end env s = Inl err" and "audio_file s \<noteq> None"
  shows "raised_by env err"
proof -
  from assms(2) obtain p where p: "audio_file s = Some p" by blast
  with assms(1) show ?thesis
    by (cases "transcribe env p")
      (auto simp: transcribe_end_def raised_by_def exc_bind_eq_Inl split: if_splits)
qed

lemma raised_by_dispatch:
  "dispatch env e s = Inl err \<Longrightarrow> raised_by env err"
  "process_events env es s = Inl err \<Longrightarrow> raised_by env err"
proof (induction env e s and env es s rule: dispatch_process_events.induct)
  case (2 env pending s)
  show ?case
  proof (cases "process_events env pending (transcribe_begin s)")
    case (Inl err')
    with "2.prems" "2.IH" show ?thesis by (auto simp: transcribeAudio_def split: if_splits)
  next
    case (Inr s1)
    with "2.prems" have e: "transcribe_end env s1 = Inl err" and "audio_file s \<noteq> None"
      by (auto simp: transcribeAudio_def split: if_splits)
    from this(2) have "audio_file (transcribe_begin s) \<noteq> None"
      by (simp add: transcribe_begin_def)
    with Inr have "audio_file s1 \<noteq> None" by (rule audio_file_kept(2))
    with e show ?thesis by (rule transcribe_end_Inl)
  qed
next
  case (4 env p s)
  then show ?case by (auto simp: saveTranscript_def raised_by_def split: if_splits)
next
  case (6 env e es s)
  then show ?case by (cases "dispatch env e s") auto
qed (auto simp: handler_simps split: if_splits)

lemma complete_shows_file_dispatch:
  "dispatch env e s = Inr s' \<Longrightarrow> complete_shows_file env s \<Longrightarrow> complete_shows_file env s'"
  "process_events env es s = Inr s' \<Longrightarrow> complete_shows_file env s \<Longrightarrow> complete_shows_file env s'"
proof (induction env e s and env es s arbitrary: s' and s' rule: dispatch_process_events.induct)
  case (2 env pending s)
  show ?case
  proof (cases "transcribe_enabled s \<and> audio_file s \<noteq> None")
    case True
    with "2.prems"(1) obtain s1 where "transcribe_end env s1 = Inr s'"
      by (auto simp: transcribeAudio_def)
    then show ?thesis by (auto simp: transcribe_end_Inr complete_shows_file_def split: if_splits)
  qed (use "2.prems" in \<open>auto simp: transcribeAudio_def split: if_splits\<close>)
next
  case (3 env pending s)
  then show ?case
    by (auto simp: cancelTranscription_def complete_shows_file_def split: if_splits)
next
  case (6 env e es s)
  then show ?case by (cases "dispatch env e s") auto
qed (auto simp: handler_simps complete_shows_file_def split: if_splits)

lemma run_outputs_only:
  assumes "run env fs es = Inr s"
  shows "outputs_only env fs s"
proof -
  have "outputs_only env fs (init_app fs)"
    by (simp add: outputs_only_def init_app_def)
  with assms show ?thesis
    unfolding run_def by (rule outputs_only_dispatch(2))
qed

lemma demo_run_saved:
  "run demo_env Map.empty [ClickSelect ''a.mp3'', ClickTranscribe [], ClickSave ''out.txt'']
     = Inr ((demo_selected\<lparr>text_area := '' hi'', save_enabled := True, label := Complete\<rparr>)
              \<lparr>files := [''out.txt'' \<mapsto> utf8_encode (qt_plain_text '' hi'')]\<rparr>)"
  using demo_selected_facts
  by (simp add: run_def demo_selected_def init_app_def handler_simps transcribe_end_def)
    (simp add: demo_env_def)

lemma label_names_file_dispatch:
  "dispatch env e s = Inr s' \<Longrightarrow> label_names_file s \<Longrightarrow> label_names_file s'"
  "process_events env es s = Inr s' \<Longrightarrow> label_names_file s \<Longrightarrow> label_names_file s'"
proof (induction env e s and env es s arbitrary: s' and s' rule: dispatch_process_events.induct)
  case (2 env pending s)
  show ?case
  proof (cases "transcribe_enabled s \<and> audio_file s \<noteq> None")
    case True
    with "2.prems"(1) obtain s1 where "transcribe_end env s1 = Inr s'"
      by (auto simp: transcribeAudio_def)
    then show ?thesis by (auto simp: transcribe_end_Inr label_names_file_def split: if_splits)
  qed (use "2.prems" in \<open>auto simp: transcribeAudio_def split: if_splits\<close>)
next
  case (3 env pending s)
  then show ?case
    by (auto simp: cancelTranscription_def label_names_file_def split: if_splits)
next
  case (6 env e es s)
  then show ?case by (cases "dispatch env e s") auto
qed (auto simp: handler_simps label_names_file_def split: if_splits)

lemma reachable_demo_transcribed:
  "reachable demo_env (demo_selected\<lparr>text_area := '' hi'', save_enabled := True, label := Complete\<rparr>)"
proof -
  have "dispatch demo_env (ClickTranscribe []) demo_selected =
      Inr (demo_selected\<lparr>text_area := '' hi'', save_enabled := True, label := Complete\<rparr>)"
    using demo_selected_facts
    by (simp add: demo_selected_def openFileDialog_def init_app_def handler_simps transcribe_end_def)
  with reachable_demo_selected show ?thesis by (rule reachable.step)
qed

section \<open>Properties of the window\<close>

text \<open>
  C2. Invariant of the event loop: between two events, no transcription is active,
  the cancel button is disabled and the progress bar hidden; the transcribe button
  is enabled exactly when a file has been selected (so the model is never called
  without one); and a non-empty transcript is only ever shown with the save button
  enabled.
\<close>

theorem reachable_app_state:
  assumes "reachable env s"
  shows "\<not> transcription_active s \<and> \<not> cancel_enabled s \<and> \<not> progress_visible s \<and>
         (transcribe_enabled s \<longleftrightarrow> audio_file s \<noteq> None) \<and>
         (text_area s \<noteq> [] \<longrightarrow> save_enabled s)"
  using reachable_wf_idle [OF assms] by (auto simp: wf_def idle_def split: option.splits)

theorem reachable_app_state_witness:
  "\<not> transcription_active demo_selected \<and> \<not> cancel_enabled demo_selected \<and>
   \<not> progress_visible demo_selected \<and> transcribe_enabled demo_selected"
  using reachable_app_state [OF reachable_demo_selected] demo_selected_facts(1) by simp

text \<open>
  C3. A transcription without interruption: clicking Transcribe with a file
  selected, when no other event is pending, runs the model on the file and shows
  the filtered transcript, enables saving and reports completion; every other
  property of the window is as before.
\<close>

theorem transcribe_completes:
  assumes "reachable env s" and "audio_file s = Some p"
    and "transcribe env p = Inr r" and "remove_ads r = Inr clean"
  shows "dispatch env (ClickTranscribe []) s =
           Inr (s\<lparr>text_area := clean, save_enabled := True, label := Complete\<rparr>)"
proof -
  from reachable_selected [OF assms(1,2)] have "transcribe_enabled s" "\<not> transcription_active s"
    "\<not> cancel_enabled s" "\<not> progress_visible s" by simp_all
  with assms(2-) show ?thesis by (cases s) (simp add: handler_simps transcribe_end_def)
qed

theorem transcribe_completes_witness:
  "dispatch demo_env (ClickTranscribe []) demo_selected =
     Inr (demo_selected\<lparr>text_area := '' hi'', save_enabled := True, label := Complete\<rparr>)"
  by (rule transcribe_completes [OF reachable_demo_selected demo_selected_facts])

text \<open>
  C4. Re-entrancy: the Transcribe button stays enabled while its handler runs, so
  a second click delivered by \<^verbatim>\<open>processEvents()\<close> runs a whole nested
  transcription; that one resets \<^verbatim>\<open>transcription_active\<close>, and the outer handler
  then reports ``Transcription Canceled!'' although the user never cancelled (the
  model runs twice and the nested result stays on screen).
\<close>

theorem reentrant_transcribe_reports_canceled:
  assumes "reachable env s" and "audio_file s = Some p"
    and "transcribe env p = Inr r" and "remove_ads r = Inr clean"
  shows "dispatch env (ClickTranscribe [ClickTranscribe []]) s =
           Inr (s\<lparr>text_area := clean, save_enabled := True, label := Canceled\<rparr>)"
proof -
  from reachable_selected [OF assms(1,2)] have "transcribe_enabled s" "\<not> transcription_active s"
    "\<not> cancel_enabled s" "\<not> progress_visible s" by simp_all
  with assms(2-) show ?thesis by (cases s) (simp add: handler_simps transcribe_end_def)
qed

theorem reentrant_transcribe_reports_canceled_witness:
  "dispatch demo_env (ClickTranscribe [ClickTranscribe []]) demo_selected =
     Inr (demo_selected\<lparr>text_area := '' hi'', save_enabled := True, label := Canceled\<rparr>)"
  by (rule reentrant_transcribe_reports_canceled [OF reachable_demo_selected demo_selected_facts])

text \<open>
  C5. Cancellation after the fact is impossible: between events the cancel button
  is disabled, so a Cancel click that the event loop delivers after the blocking
  model call has returned changes nothing.
\<close>

theorem top_level_cancel_noop:
  assumes "reachable env s"
  shows "dispatch env (ClickCancel pending) s = Inr s"
  using reachable_wf_idle [OF assms] by (simp add: idle_def)

theorem top_level_cancel_noop_witness:
  "dispatch demo_env (ClickCancel [ClickSave ''out.txt'']) demo_selected = Inr demo_selected"
  by (rule top_level_cancel_noop [OF reachable_demo_selected])

text \<open>
  C6. The only effective cancellation: a Cancel click delivered by the
  \<^verbatim>\<open>processEvents()\<close> call of \<^verbatim>\<open>transcribeAudio\<close>, before the model runs. The model
  still runs to completion; its result is discarded, the transcript and the save
  button are left as they were and the label reports the cancellation.
\<close>

theorem cancel_in_process_events_discards:
  assumes "reachable env s" and "audio_file s = Some p" and "transcribe env p = Inr r"
  shows "dispatch env (ClickTranscribe [ClickCancel []]) s = Inr (s\<lparr>label := Canceled\<rparr>)"
proof -
  from reachable_selected [OF assms(1,2)] have "transcribe_enabled s" "\<not> transcription_active s"
    "\<not> cancel_enabled s" "\<not> progress_visible s" by simp_all
  with assms(2-) show ?thesis by (cases s) (simp add: handler_simps transcribe_end_def)
qed

theorem cancel_in_process_events_discards_witness:
  "dispatch demo_env (ClickTranscribe [ClickCancel []]) demo_selected =
     Inr (demo_selected\<lparr>label := Canceled\<rparr>)"
  by (rule cancel_in_process_events_discards [OF reachable_demo_selected demo_selected_facts(1,2)])

text \<open>
  C10. Saving writes nothing but the transcript: a Save click either leaves the
  window and the files unchanged, or, when saving is enabled, the transcript is
  non-empty and a path was chosen, stores at that path the UTF-8 bytes of the
  text area's plain text (\<^verbatim>\<open>toPlainText()\<close> of the displayed transcript) and
  changes nothing else.
\<close>

theorem save_only_writes_transcript:
  assumes "dispatch env (ClickSave p) s = Inr s'"
  shows "s' = s \<or>
         (s' = s\<lparr>files := (files s)(p \<mapsto> utf8_encode (qt_plain_text (text_area s)))\<rparr> \<and> save_enabled s \<and>
          text_area s \<noteq> [] \<and> p \<noteq> [])"
  using assms by (auto simp: saveTranscript_def split: if_splits)

theorem save_only_writes_transcript_witness:
  "files (projr (dispatch demo_env (ClickSave ''out.txt'')
      (demo_selected\<lparr>text_area := '' hi'', save_enabled := True\<rparr>))) ''out.txt'' =
     Some (utf8_encode (qt_plain_text '' hi''))"
proof -
  have d: "dispatch demo_env (ClickSave ''out.txt'') (demo_selected\<lparr>text_area := '' hi'', save_enabled := True\<rparr>)
      = Inr (demo_selected\<lparr>text_area := '' hi'', save_enabled := True,
               files := (files demo_selected)(''out.txt'' \<mapsto> utf8_encode (qt_plain_text '' hi''))\<rparr>)"
    by (simp add: saveTranscript_def demo_env_def)
  from save_only_writes_transcript [OF d] d show ?thesis by simp
qed

text \<open>
  C11. Error path: an exception of the model leaves \<^verbatim>\<open>transcribeAudio\<close> at once;
  it reaches the event loop, which aborts, and the widgets are never reset.
\<close>

theorem model_error_aborts:
  assumes "reachable env s" and "audio_file s = Some p" and "transcribe env p = Inl err"
  shows "dispatch env (ClickTranscribe []) s = Inl err"
  using reachable_selected [OF assms(1,2)] assms(2-)
  by (simp add: handler_simps transcribe_end_def)

theorem model_error_aborts_witness:
  "dispatch demo_env (ClickTranscribe [])
     (openFileDialog ''b.wav'' (init_app Map.empty)) = Inl ModelError"
proof -
  have r: "reachable demo_env (openFileDialog ''b.wav'' (init_app Map.empty))"
    by (rule reachable.step [OF reachable.start, of _ "ClickSelect ''b.wav''"]) simp
  show ?thesis
    by (rule model_error_aborts [OF r]) (simp add: openFileDialog_def init_app_def demo_env_def)+
qed

text \<open>
  C14. The model reads \<^verbatim>\<open>self.audio_file\<close> after \<^verbatim>\<open>processEvents()\<close>: a file
  selected while the handler waits for pending events is the one transcribed, not
  the one selected when Transcribe was clicked.
\<close>

theorem transcribes_file_selected_during_events:
  assumes "reachable env s" and "audio_file s = Some p" and "q \<noteq> []"
    and "transcribe env q = Inr r" and "remove_ads r = Inr clean"
  shows "dispatch env (ClickTranscribe [ClickSelect q]) s =
           Inr (s\<lparr>audio_file := Some q, text_area := clean, save_enabled := True,
                  label := Complete\<rparr>)"
proof -
  from reachable_selected [OF assms(1,2)] have "transcribe_enabled s" "\<not> transcription_active s"
    "\<not> cancel_enabled s" "\<not> progress_visible s" by simp_all
  with assms(2-) show ?thesis by (cases s) (simp add: handler_simps transcribe_end_def)
qed

theorem transcribes_file_selected_during_events_witness:
  "dispatch demo_env (ClickTranscribe [ClickSelect ''a.mp3''])
     (openFileDialog ''b.wav'' (init_app Map.empty)) =
   Inr ((openFileDialog ''b.wav'' (init_app Map.empty))\<lparr>audio_file := Some ''a.mp3'',
          text_area := '' hi'', save_enabled := True, label := Complete\<rparr>)"
proof -
  have r: "reachable demo_env (openFileDialog ''b.wav'' (init_app Map.empty))"
    by (rule reachable.step [OF reachable.start, of _ "ClickSelect ''b.wav''"]) simp
  show ?thesis
    by (rule transcribes_file_selected_during_events [OF r _ _ demo_selected_facts(2,3)])
      (simp_all add: openFileDialog_def init_app_def)
qed


text \<open>
  C15. Whatever events arrive, in any interleaving, a file that a run of the
  program changed holds the UTF-8 encoding of Qt's plain text of
  \<^verbatim>\<open>remove_ads\<close> of the model's result on some audio file: the program writes
  nothing but filtered transcripts, and deletes nothing.
\<close>

theorem run_writes_only_transcripts:
  assumes "run env fs es = Inr s" and "files s q \<noteq> fs q"
  shows "\<exists>t p r. files s q = Some (utf8_encode (qt_plain_text t)) \<and> transcribe env p = Inr r \<and> remove_ads r = Inr t"
  using run_outputs_only [OF assms(1)] assms(2) by (auto simp: outputs_only_def model_output_def)

theorem run_writes_only_transcripts_witness:
  "\<exists>t p r. files (projr (run demo_env Map.empty
       [ClickSelect ''a.mp3'', ClickTranscribe [], ClickSave ''out.txt''])) ''out.txt'' = Some (utf8_encode (qt_plain_text t))
     \<and> transcribe demo_env p = Inr r \<and> remove_ads r = Inr t"
proof -
  note r = demo_run_saved
  have "files ((demo_selected\<lparr>text_area := '' hi'', save_enabled := True, label := Complete\<rparr>)
               \<lparr>files := [''out.txt'' \<mapsto> utf8_encode (qt_plain_text '' hi'')]\<rparr>) ''out.txt'' \<noteq> Map.empty ''out.txt''"
    by simp
  from run_writes_only_transcripts [OF r this] r show ?thesis by simp
qed

text \<open>
  C17. Liveness of a transcription: a Transcribe click on a file, whatever clicks
  \<^verbatim>\<open>processEvents()\<close> delivers in the middle, ends (when it raises nothing) with
  the label reporting completion or cancellation, no transcription active, the
  cancel button disabled and the progress bar hidden.
\<close>

theorem transcribe_reports_outcome:
  assumes "reachable env s" and "audio_file s \<noteq> None"
    and "dispatch env (ClickTranscribe pending) s = Inr s'"
  shows "(label s' = Complete \<or> label s' = Canceled) \<and> \<not> transcription_active s' \<and>
         \<not> cancel_enabled s' \<and> \<not> progress_visible s'"
proof -
  from assms(2) obtain p where p: "audio_file s = Some p" by blast
  from reachable_selected [OF assms(1) p] assms(3) p obtain s1
    where "transcribe_end env s1 = Inr s'"
    by (auto simp: transcribeAudio_def)
  then show ?thesis by (auto simp: transcribe_end_Inr split: if_splits)
qed

theorem transcribe_reports_outcome_witness:
  "\<exists>s'. dispatch demo_env (ClickTranscribe [ClickCancel []]) demo_selected = Inr s' \<and>
        (label s' = Complete \<or> label s' = Canceled) \<and> \<not> transcription_active s' \<and>
        \<not> cancel_enabled s' \<and> \<not> progress_visible s'"
proof -
  have "\<exists>s'. dispatch demo_env (ClickTranscribe [ClickCancel []]) demo_selected = Inr s'"
    using demo_selected_facts
    by (simp add: demo_selected_def openFileDialog_def init_app_def handler_simps transcribe_end_def)
  then obtain s' where d: "dispatch demo_env (ClickTranscribe [ClickCancel []]) demo_selected = Inr s'"
    by blast
  have "audio_file demo_selected \<noteq> None" by (simp add: demo_selected_facts(1))
  from transcribe_reports_outcome [OF reachable_demo_selected this d] d show ?thesis by blast
qed

text \<open>
  C18. The label never stays on a transient text: between events it never reads
  "Transcribing..." or "Canceling transcription...", whatever the interleaving.
\<close>

theorem reachable_label_settled:
  "reachable env s \<Longrightarrow> label s \<noteq> Transcribing \<and> label s \<noteq> Canceling"
proof (induction rule: reachable.induct)
  case (start fs)
  then show ?case by (simp add: init_app_def)
next
  case (step s e s')
  then have "idle s" using reachable_wf_idle by blast
  with step show ?case
    using settled_label_dispatch [of env e s s'] by (simp add: settled_label_def)
qed

theorem reachable_label_settled_witness:
  "label (demo_selected\<lparr>text_area := '' hi'', save_enabled := True, label := Complete\<rparr>)
     \<noteq> Transcribing \<and>
   label (demo_selected\<lparr>text_area := '' hi'', save_enabled := True, label := Complete\<rparr>)
     \<noteq> Canceling"
  by (rule reachable_label_settled [OF reachable_demo_transcribed])

text \<open>
  C19. Type of the text area: in every state between events the text area holds
  a lower-case string (a fixed point of \<^verbatim>\<open>str.lower\<close>), since the code only ever
  puts there the empty string or the output of \<^verbatim>\<open>remove_ads\<close>.
\<close>

theorem reachable_text_lower:
  "reachable env s \<Longrightarrow> py_lower (text_area s) = text_area s"
proof (induction rule: reachable.induct)
  case (start fs)
  then show ?case by (simp add: init_app_def)
next
  case (step s e s')
  then show ?case by (blast intro: lower_text_dispatch(1))
qed

theorem reachable_text_lower_witness:
  "py_lower (text_area (demo_selected\<lparr>text_area := '' hi'', save_enabled := True, label := Complete\<rparr>))
     = text_area (demo_selected\<lparr>text_area := '' hi'', save_enabled := True, label := Complete\<rparr>)"
  by (rule reachable_text_lower [OF reachable_demo_transcribed])

text \<open>
  C20. Error path of saving: when the Save button is enabled, the text area is
  not empty and the chosen path cannot be written, \<^verbatim>\<open>open(fileName, 'w')\<close> raises
  \<^verbatim>\<open>OSError\<close>, which nothing in \<^verbatim>\<open>saveTranscript\<close> catches.
\<close>

theorem save_unwritable_raises:
  assumes "save_enabled s" and "text_area s \<noteq> []" and "p \<noteq> []" and "\<not> can_write env p"
  shows "dispatch env (ClickSave p) s = Inl (OSError p)"
  using assms by (simp add: saveTranscript_def)

theorem save_unwritable_raises_witness:
  "dispatch demo_env (ClickSave ''ro.txt'') (demo_selected\<lparr>text_area := '' hi'', save_enabled := True\<rparr>)
     = Inl (OSError ''ro.txt'')"
  by (rule save_unwritable_raises) (simp_all add: demo_env_def)

text \<open>
  C21. Save enabled with nothing to save: when every segment of a result is an
  advertisement, the transcription completes with an empty text area and the
  Save button enabled, and a click on it does nothing at all, whatever path the
  dialog returns.
\<close>

theorem save_enabled_but_nothing_to_save:
  "\<exists>env s. reachable env s \<and> save_enabled s \<and> text_area s = [] \<and>
           (\<forall>p. dispatch env (ClickSave p) s = Inr s)"
proof -
  let ?sel = "openFileDialog ''a.mp3'' (init_app Map.empty)"
  let ?done = "?sel\<lparr>text_area := [], save_enabled := True, label := Complete\<rparr>"
  have r0: "reachable ad_env ?sel"
    by (rule reachable.step [OF reachable.start, of _ "ClickSelect ''a.mp3''"]) simp
  have c: "remove_ads ad_result = Inr []" by code_simp
  have "dispatch ad_env (ClickTranscribe []) ?sel = Inr ?done"
    using c by (simp add: ad_env_def handler_simps transcribe_end_def init_app_def)
  with r0 have "reachable ad_env ?done" by (rule reachable.step)
  moreover have "\<forall>p. dispatch ad_env (ClickSave p) ?done = Inr ?done"
    by (simp add: saveTranscript_def)
  ultimately show ?thesis by fastforce
qed

text \<open>
  C24. The exceptions of a run: whatever the clicks and their interleaving, a run
  that raises an exception raises one of the model, one of \<^verbatim>\<open>remove_ads\<close> on a
  result of the model, or the \<^verbatim>\<open>OSError\<close> of a non-empty path that cannot be
  written. In particular the model is never called without a selected file.
\<close>

theorem run_error_sources:
  assumes "run env fs es = Inl err"
  shows "(\<exists>p. transcribe env p = Inl err) \<or>
         (\<exists>p r. transcribe env p = Inr r \<and> remove_ads r = Inl err) \<or>
         (\<exists>q. q \<noteq> [] \<and> \<not> can_write env q \<and> err = OSError q)"
  using raised_by_dispatch(2) [OF assms [unfolded run_def]] by (simp add: raised_by_def)

theorem run_error_sources_witness:
  "(\<exists>p. transcribe demo_env p = Inl ModelError) \<or>
   (\<exists>p r. transcribe demo_env p = Inr r \<and> remove_ads r = Inl ModelError) \<or>
   (\<exists>q. q \<noteq> [] \<and> \<not> can_write demo_env q \<and> ModelError = OSError q)"
proof (rule run_error_sources)
  show "run demo_env Map.empty [ClickSelect ''b.mp3'', ClickTranscribe []] = Inl ModelError"
    by (simp add: run_def init_app_def handler_simps transcribe_end_def demo_env_def)
qed

text \<open>
  C26. The label does not lie about completion: in every state between events
  in which the label reads "Transcription Complete!", the text area shows
  \<^verbatim>\<open>remove_ads\<close> of the model's result on the file selected at that moment,
  whatever clicks the nested \<^verbatim>\<open>processEvents()\<close> calls delivered.
\<close>

theorem reachable_complete_shows_file:
  assumes "reachable env s" and "label s = Complete"
  shows "\<exists>p r. audio_file s = Some p \<and> transcribe env p = Inr r \<and> remove_ads r = Inr (text_area s)"
proof -
  from assms(1) have "complete_shows_file env s"
  proof (induction rule: reachable.induct)
    case (start fs)
    then show ?case by (simp add: complete_shows_file_def init_app_def)
  next
    case (step s e s')
    then show ?case by (blast intro: complete_shows_file_dispatch(1))
  qed
  with assms(2) show ?thesis by (simp add: complete_shows_file_def)
qed

theorem reachable_complete_shows_file_witness:
  "\<exists>p r. audio_file (demo_selected\<lparr>text_area := '' hi'', save_enabled := True, label := Complete\<rparr>) = Some p \<and>
     transcribe demo_env p = Inr r \<and>
     remove_ads r = Inr (text_area (demo_selected\<lparr>text_area := '' hi'', save_enabled := True, label := Complete\<rparr>))"
  by (rule reachable_complete_shows_file [OF reachable_demo_transcribed]) simp

text \<open>
  C27. A stale transcript: selecting another file after a transcription leaves
  the previous transcript in the text area and the Save button enabled, while the
  label names the new file; a Save click then writes the old transcript, which is
  not the transcript of the file the window names.
\<close>

theorem select_keeps_stale_transcript:
  "\<exists>env s. reachable env s \<and> audio_file s = Some ''b.mp3'' \<and> label s = Selected ''b.mp3'' \<and>
     save_enabled s \<and> text_area s \<noteq> [] \<and>
     \<not> (\<exists>r. transcribe env ''b.mp3'' = Inr r \<and> remove_ads r = Inr (text_area s)) \<and>
     dispatch env (ClickSave ''out.txt'') s =
       Inr (s\<lparr>files := (files s)(''out.txt'' \<mapsto> utf8_encode (qt_plain_text (text_area s)))\<rparr>)"
proof -
  let ?done = "demo_selected\<lparr>text_area := '' hi'', save_enabled := True, label := Complete\<rparr>"
  have b: "basename ''b.mp3'' = ''b.mp3''" by code_simp
  have "dispatch demo_env (ClickSelect ''b.mp3'') ?done = Inr (openFileDialog ''b.mp3'' ?done)"
    by simp
  with reachable_demo_transcribed have "reachable demo_env (openFileDialog ''b.mp3'' ?done)"
    by (rule reachable.step)
  moreover have "save_enabled (openFileDialog ''b.mp3'' ?done)"
    and "audio_file (openFileDialog ''b.mp3'' ?done) = Some ''b.mp3''"
    and "label (openFileDialog ''b.mp3'' ?done) = Selected ''b.mp3''"
    and "text_area (openFileDialog ''b.mp3'' ?done) = '' hi''"
    using b by (simp_all add: openFileDialog_def)
  moreover have "transcribe demo_env ''b.mp3'' = Inl ModelError" by (simp add: demo_env_def)
  moreover have "dispatch demo_env (ClickSave ''out.txt'') (openFileDialog ''b.mp3'' ?done) =
      Inr ((openFileDialog ''b.mp3'' ?done)\<lparr>files := (files (openFileDialog ''b.mp3'' ?done))
             (''out.txt'' \<mapsto> utf8_encode (qt_plain_text (text_area (openFileDialog ''b.mp3'' ?done))))\<rparr>)"
    by (simp add: openFileDialog_def saveTranscript_def demo_env_def)
  ultimately show ?thesis by fastforce
qed

text \<open>
  C28. What is saved is Qt's plain text, not the transcript: the file holds the
  UTF-8 bytes of \<^verbatim>\<open>self.text_area.toPlainText()\<close>, which replaces a no-break
  space by a space (and a carriage return by a line feed); so for a transcript
  with a no-break space the saved bytes are not the encoding of the transcript
  the window shows and \<^verbatim>\<open>remove_ads\<close> returned.
\<close>

theorem saved_bytes_differ_from_transcript:
  "\<exists>env s. run env Map.empty [ClickSelect ''a.mp3'', ClickTranscribe [], ClickSave ''out.txt''] = Inr s \<and>
     label s = Complete \<and> model_output env (text_area s) \<and>
     files s ''out.txt'' = Some (utf8_encode (qt_plain_text (text_area s))) \<and>
     files s ''out.txt'' \<noteq> Some (utf8_encode (text_area s))"
proof -
  let ?s = "(openFileDialog ''a.mp3'' (init_app Map.empty))
              \<lparr>text_area := nbsp_text, save_enabled := True, label := Complete,
               files := [''out.txt'' \<mapsto> utf8_encode (qt_plain_text nbsp_text)]\<rparr>"
  have ra: "remove_ads \<lparr>res_text = nbsp_text, res_segments = Some [mk_seg nbsp_text 0 1]\<rparr> =
      Inr nbsp_text" by code_simp
  have ne: "nbsp_text \<noteq> []" by (simp add: nbsp_text_def)
  from ra ne have "run nbsp_env Map.empty [ClickSelect ''a.mp3'', ClickTranscribe [], ClickSave ''out.txt''] =
      Inr ?s"
    by (simp add: run_def init_app_def handler_simps transcribe_end_def nbsp_env_def)
  moreover from ra have "model_output nbsp_env (text_area ?s)"
    by (auto simp: model_output_def nbsp_env_def)
  moreover have "utf8_encode (qt_plain_text nbsp_text) \<noteq> utf8_encode nbsp_text"
    by (simp add: nbsp_text_def qt_char_def utf8_encode_def utf8_encode_char_def)
  ultimately show ?thesis by fastforce
qed

text \<open>
  C29. The label names the selected file: in every state between events in which
  the label reads "Selected: x", \<open>x\<close> is the base name of the file selected
  now, whatever clicks the nested \<^verbatim>\<open>processEvents()\<close> calls delivered.
\<close>

theorem reachable_label_names_file:
  assumes "reachable env s" and "label s = Selected x"
  shows "\<exists>p. audio_file s = Some p \<and> x = basename p"
proof -
  from assms(1) have "label_names_file s"
  proof (induction rule: reachable.induct)
    case (start fs)
    then show ?case by (simp add: label_names_file_def init_app_def)
  next
    case (step s e s')
    then show ?case by (blast intro: label_names_file_dispatch(1))
  qed
  with assms(2) show ?thesis by (simp add: label_names_file_def)
qed

theorem reachable_label_names_file_witness:
  "\<exists>p. audio_file demo_selected = Some p \<and> basename ''a.mp3'' = basename p"
proof (rule reachable_label_names_file [OF reachable_demo_selected])
  show "label demo_selected = Selected (basename ''a.mp3'')"
    by (simp add: demo_selected_def openFileDialog_def init_app_def)
qed

end
