(* ===== verification/Window_Spec.thy ===== *)
theory Window_Spec
  imports App
begin

text \<open>
  What the window promises its user, as an abstract labelled transition system,
  and the proof that the handlers of \<open>App\<close> implement it. The abstract window
  \<open>ui\<close> has only what the user can observe and keep: the file selected, the
  transcript shown and the files written. Its operations \<open>ui_op\<close> are the three
  user-level actions: select a file, show the filtered transcript of the
  selected file, save the shown transcript. \<open>ui_of\<close> maps a state of the code to
  the abstract window (a refinement mapping); every click, with all the clicks
  its \<^verbatim>\<open>processEvents()\<close> call delivers, is a finite sequence of abstract
  operations (forward simulation), and every abstract operation enabled in a
  state between events is one click (backward simulation), so the code and the
  abstract window reach the same observable states.
\<close>

section \<open>The abstract window\<close>

record ui =
  ui_file :: "pystr option"
  ui_text :: pystr
  ui_files :: "pystr \<rightharpoonup> byte list"

datatype ui_op =
    USelect pystr
  | UShow pystr pystr     \<comment> \<open>the file transcribed and the transcript shown\<close>
  | USave pystr

definition ui_init :: "(pystr \<rightharpoonup> byte list) \<Rightarrow> ui" where
  "ui_init fs = \<lparr>ui_file = None, ui_text = [], ui_files = fs\<rparr>"

inductive ui_step :: "env \<Rightarrow> ui \<Rightarrow> ui_op \<Rightarrow> ui \<Rightarrow> bool" for env where
  ui_select: "p \<noteq> [] \<Longrightarrow> ui_step env u (USelect p) (u\<lparr>ui_file := Some p\<rparr>)"
| ui_show: "ui_file u = Some p \<Longrightarrow> transcribe env p = Inr r \<Longrightarrow> remove_ads r = Inr t \<Longrightarrow>
    ui_step env u (UShow p t) (u\<lparr>ui_text := t\<rparr>)"
| ui_save: "ui_text u \<noteq> [] \<Longrightarrow> q \<noteq> [] \<Longrightarrow> can_write env q \<Longrightarrow>
    ui_step env u (USave q) (u\<lparr>ui_files := (ui_files u)(q \<mapsto> utf8_encode (qt_plain_text (ui_text u)))\<rparr>)"

inductive ui_steps :: "env \<Rightarrow> ui \<Rightarrow> ui_op list \<Rightarrow> ui \<Rightarrow> bool" for env where
  ui_nil: "ui_steps env u [] u"
| ui_cons: "ui_step env u op u1 \<Longrightarrow> ui_steps env u1 ops u2 \<Longrightarrow> ui_steps env u (op # ops) u2"


text \<open>The refinement mapping: the part of the window's state the user keeps.\<close>

definition ui_of :: "app \<Rightarrow> ui" where
  "ui_of s = \<lparr>ui_file = audio_file s, ui_text = text_area s, ui_files = files s\<rparr>"

section \<open>Lemmas\<close>

lemma ui_steps_append:
  "ui_steps env u xs v \<Longrightarrow> ui_steps env v ys w \<Longrightarrow> ui_steps env u (xs @ ys) w"
  by (induction rule: ui_steps.induct) (auto intro: ui_steps.intros)

lemma ui_steps_single: "ui_step env u op v \<Longrightarrow> ui_steps env u [op] v"
  by (blast intro: ui_steps.intros)


lemma ui_of_init [simp]: "ui_of (init_app fs) = ui_init fs"
  by (simp add: ui_of_def ui_init_def init_app_def)

text \<open>Each handler seen through \<open>ui_of\<close>: no abstract operation or exactly one.\<close>

lemma ui_openFileDialog:
  "ui_of (openFileDialog p s) = ui_of s \<or> ui_step env (ui_of s) (USelect p) (ui_of (openFileDialog p s))"
proof (cases "p = []")
  case False
  then have "ui_step env (ui_of s) (USelect p) ((ui_of s)\<lparr>ui_file := Some p\<rparr>)"
    by (rule ui_step.ui_select)
  moreover from False have "ui_of (openFileDialog p s) = (ui_of s)\<lparr>ui_file := Some p\<rparr>"
    by (simp add: openFileDialog_def ui_of_def)
  ultimately show ?thesis by simp
qed (simp add: openFileDialog_def)

lemma ui_transcribe_begin [simp]: "ui_of (transcribe_begin s) = ui_of s"
  by (simp add: transcribe_begin_def ui_of_def)

lemma ui_cancel [simp]: "ui_of (s\<lparr>transcription_active := False, label := Canceling\<rparr>) = ui_of s"
  by (simp add: ui_of_def)

lemma ui_transcribe_end:
  assumes "transcribe_end env s = Inr s'"
  shows "ui_of s' = ui_of s \<or> (\<exists>p t. ui_step env (ui_of s) (UShow p t) (ui_of s'))"
proof -
  from assms obtain p r where p: "audio_file s = Some p" and r: "transcribe env p = Inr r"
    by (auto simp: transcribe_end_Inr)
  show ?thesis
  proof (cases "transcription_active s")
    case True
    with assms p r obtain t where t: "remove_ads r = Inr t"
      and s': "ui_of s' = (ui_of s)\<lparr>ui_text := t\<rparr>"
      by (auto simp: transcribe_end_Inr ui_of_def)
    from p r t have "ui_step env (ui_of s) (UShow p t) ((ui_of s)\<lparr>ui_text := t\<rparr>)"
      by (intro ui_step.ui_show) (simp_all add: ui_of_def)
    with s' show ?thesis by auto
  next
    case False
    with assms show ?thesis by (auto simp: transcribe_end_Inr ui_of_def)
  qed
qed

lemma ui_saveTranscript:
  assumes "saveTranscript env p s = Inr s'"
  shows "ui_of s' = ui_of s \<or> ui_step env (ui_of s) (USave p) (ui_of s')"
proof (cases "text_area s = [] \<or> p = []")
  case False
  with assms have "can_write env p" and s': "ui_of s' = (ui_of s)\<lparr>ui_files := (files s)(p \<mapsto> utf8_encode (qt_plain_text (text_area s)))\<rparr>"
    by (auto simp: saveTranscript_def ui_of_def split: if_splits)
  with False show ?thesis
    using ui_step.ui_save [of "ui_of s" p env] by (simp add: ui_of_def)
qed (use assms in \<open>auto simp: saveTranscript_def split: if_splits\<close>)

text \<open>A step that is either a stutter or one abstract operation is a sequence of them.\<close>

lemma ui_steps_stutter_or_step:
  "v = u \<or> ui_step env u op v \<Longrightarrow> \<exists>ops. ui_steps env u ops v"
  using ui_steps.ui_nil ui_steps_single by blast

lemma ui_dispatch:
  "dispatch env e s = Inr s' \<Longrightarrow> \<exists>ops. ui_steps env (ui_of s) ops (ui_of s')"
  "process_events env es s = Inr s' \<Longrightarrow> \<exists>ops. ui_steps env (ui_of s) ops (ui_of s')"
proof (induction env e s and env es s arbitrary: s' and s' rule: dispatch_process_events.induct)
  case (1 env p s)
  then show ?case using ui_openFileDialog [of p s env] ui_steps_stutter_or_step by auto
next
  case (2 env pending s)
  show ?case
  proof (cases "transcribe_enabled s \<and> audio_file s \<noteq> None")
    case True
    with "2.prems" obtain s1 where s1: "process_events env pending (transcribe_begin s) = Inr s1"
      and e: "transcribe_end env s1 = Inr s'"
      by (auto simp: transcribeAudio_def)
    from "2.IH" [OF True[THEN conjunct1] s1] obtain ops1
      where "ui_steps env (ui_of s) ops1 (ui_of s1)" by auto
    moreover from ui_transcribe_end [OF e] obtain ops2
      where "ui_steps env (ui_of s1) ops2 (ui_of s')"
      using ui_steps_stutter_or_step by blast
    ultimately show ?thesis by (blast intro: ui_steps_append)
  qed (use "2.prems" in \<open>auto simp: transcribeAudio_def split: if_splits intro: ui_steps.ui_nil\<close>)
next
  case (3 env pending s)
  show ?case
  proof (cases "cancel_enabled s")
    case True
    with "3.prems" have "process_events env pending (s\<lparr>transcription_active := False, label := Canceling\<rparr>) = Inr s'"
      by (simp add: cancelTranscription_def)
    from "3.IH" [OF True this] show ?thesis by simp
  qed (use "3.prems" in \<open>auto intro: ui_steps.ui_nil\<close>)
next
  case (4 env p s)
  then show ?case
    using ui_saveTranscript [of env p s s'] ui_steps_stutter_or_step
    by (auto split: if_splits intro: ui_steps.ui_nil)
next
  case (5 env s)
  then show ?case by (auto intro: ui_steps.ui_nil)
next
  case (6 env e es s)
  then obtain s1 where d: "dispatch env e s = Inr s1" and r: "process_events env es s1 = Inr s'"
    by (cases "dispatch env e s") auto
  from "6.IH"(1) [OF d] "6.IH"(2) [OF r] show ?case by (blast intro: ui_steps_append)
qed


section \<open>The window implements the abstract window\<close>

text \<open>
  C22. Refinement: every run of the program that raises nothing, whatever clicks
  the nested \<^verbatim>\<open>processEvents()\<close> calls deliver, is seen by the user as a finite
  sequence of the three abstract operations from the initial window: selecting a
  non-empty path, showing \<^verbatim>\<open>remove_ads\<close> of the model's result on the file selected
  at that moment, and saving the UTF-8 bytes of the plain text of a non-empty shown
  transcript to a writable path.
\<close>

theorem run_refines_ui:
  assumes "run env fs es = Inr s"
  shows "\<exists>ops. ui_steps env (ui_init fs) ops (ui_of s)"
  using ui_dispatch(2) [OF assms [unfolded run_def]] by simp

theorem run_refines_ui_witness:
  "\<exists>ops. ui_steps calm_env (ui_init Map.empty) ops
     (ui_of ((demo_selected\<lparr>text_area := '' hi'', save_enabled := True, label := Complete\<rparr>)
              \<lparr>files := [''o.txt'' \<mapsto> utf8_encode (qt_plain_text '' hi'')]\<rparr>))"
proof (rule run_refines_ui)
  show "run calm_env Map.empty [ClickSelect ''a.mp3'', ClickTranscribe [], ClickSave ''o.txt''] =
      Inr ((demo_selected\<lparr>text_area := '' hi'', save_enabled := True, label := Complete\<rparr>)
             \<lparr>files := [''o.txt'' \<mapsto> utf8_encode (qt_plain_text '' hi'')]\<rparr>)"
    using demo_selected_facts(3)
    by (simp add: run_def demo_selected_def init_app_def handler_simps transcribe_end_def calm_env_def)
qed


end
