(* ===== verification/Spec2Isabelle.thy ===== *)
theory Spec2Isabelle
  imports Window_Spec
begin

text \<open>
  \<^bold>\<open>A verification library for \<^verbatim>\<open>src/transcribe_app_gui.py\<close>.\<close>

  \<^bold>\<open>The program.\<close> A PyQt6 window (\<^verbatim>\<open>TranscriptionApp\<close>) lets the user select an
  audio file, transcribes it with a Whisper speech-recognition model, removes the
  segments that look like advertisements (\<^verbatim>\<open>remove_ads\<close>) and saves the
  transcript to a text file. Its parts:
  \<^item> the segment filter \<^verbatim>\<open>remove_ads\<close> (lines 8--22): lower-cases the text of every
    segment of the model's result, drops a segment when one of six hard-coded
    phrases occurs in it as a substring, and joins the rest with single spaces;
  \<^item> the window (lines 24--112): four buttons whose click handlers
    \<^verbatim>\<open>openFileDialog\<close>, \<^verbatim>\<open>transcribeAudio\<close>, \<^verbatim>\<open>cancelTranscription\<close> and
    \<^verbatim>\<open>saveTranscript\<close> read and write the widgets' properties and the attributes
    \<^verbatim>\<open>audio_file\<close> and \<^verbatim>\<open>transcription_active\<close>; \<^verbatim>\<open>transcribeAudio\<close> calls the
    model and then \<^verbatim>\<open>remove_ads\<close>;
  \<^item> the Qt event loop (lines 114--118), which delivers clicks to enabled buttons
    one at a time, and \<^verbatim>\<open>QApplication.processEvents()\<close>, called inside
    \<^verbatim>\<open>transcribeAudio\<close> (line 85) and \<^verbatim>\<open>cancelTranscription\<close> (line 103), which
    delivers the pending clicks in the middle of a handler: the only place where
    handlers interleave;
  \<^item> the collaborators: the model (\<^verbatim>\<open>whisper\<close>), the file dialogs and the file system.

  \<^bold>\<open>The theories.\<close>
  \<^item> \<open>Prelude\<close>: the Python exceptions (\<open>py_error\<close>), their propagation through a
    block (\<open>exc_bind\<close>), the rule collections \<open>py_simps\<close> and \<open>handler_simps\<close>,
    generic lemmas on \<open>those\<close> and subsequences.
  \<^item> \<open>PyStr\<close>: the builtins the program calls, as executable functions:
    \<open>py_lower\<close> (\<^verbatim>\<open>str.lower\<close>, exact on the Latin-1 block: a character is
    a code point below 256, and \<open>is_upper_code\<close> is CPython's table of the capitals
    there), \<open>py_in\<close> (\<^verbatim>\<open>in\<close> on strings, a left-to-right scan, proved equal to the
    library's \<open>sublist\<close>), \<open>py_join\<close> (\<^verbatim>\<open>str.join\<close>), \<open>basename\<close>
    (\<^verbatim>\<open>os.path.basename\<close>). \<open>py_split\<close> (\<^verbatim>\<open>str.split\<close> with an explicit
    separator, which the program does not call) serves to state the
    specification's laws on words.
  \<^item> \<open>Codec\<close>: what \<^verbatim>\<open>saveTranscript\<close> puts on disk. \<open>qt_plain_text\<close> is Qt's
    \<^verbatim>\<open>setPlainText\<close> followed by \<^verbatim>\<open>toPlainText\<close> (a carriage return, alone or
    before a line feed, comes back as one line feed; a no-break space comes back
    as a space); \<open>utf8_encode\<close> is the \<^verbatim>\<open>"utf-8"\<close> codec of \<^verbatim>\<open>open\<close>, from
    strings to bytes (\<open>8 word\<close>). The files of the window's state are byte lists.
  \<^item> \<open>AdFilter\<close>: the model's result as records (\<open>transcription_result\<close>,
    \<open>segment\<close>, a missing dictionary key as \<open>None\<close>); \<open>filter_loop\<close> is the
    \<^verbatim>\<open>for\<close> loop with its accumulator \<^verbatim>\<open>filtered_segments\<close>, \<open>remove_ads_with\<close>
    the function over any keyword list, \<open>remove_ads\<close> with the code's keywords.
    The abstract specification \<open>filter_spec\<close> (filter by \<open>sublist\<close>, then join)
    is proved to be what the code computes on every input, the two
    \<^verbatim>\<open>KeyError\<close>s included (C1). Idempotence (C7), the error on a segment without
    text (C8), the empty keyword list (C13) and the words of the output (C25)
    follow; a keyword can span two kept segments of the output (C9), against
    the specification's reason for its law \<^verbatim>\<open>filter(split(filter(S,R)),R) ==
    filter(S,R)\<close>, which nevertheless holds for every keyword list (C16).
  \<^item> \<open>App\<close>: the window's state as the record \<open>app\<close> (\<open>text_area\<close> is the string
    last given to \<^verbatim>\<open>setPlainText\<close>), the collaborators as \<open>env\<close>, a click as
    \<open>event\<close>; one definition per handler (\<open>openFileDialog\<close>, \<open>transcribeAudio\<close>
    with its two halves \<open>transcribe_begin\<close> and \<open>transcribe_end\<close> around
    \<^verbatim>\<open>processEvents()\<close>, \<open>cancelTranscription\<close>, \<open>saveTranscript\<close>);
    \<open>dispatch\<close> and \<open>process_events\<close> deliver clicks, \<open>run\<close> is the event loop,
    \<open>reachable\<close> the states between two events. Lemmas: the invariants \<open>wf\<close> (in
    every state) and \<open>idle\<close> (between events) by rule induction (C2); a normal
    transcription (C3); the re-entrant Transcribe click reported as cancelled
    (C4); a Cancel click after the model call is void (C5) and one delivered by
    \<^verbatim>\<open>processEvents()\<close> discards the result (C6); saving (C10); a model exception
    aborts (C11); the model reads the file selected during
    \<^verbatim>\<open>processEvents()\<close> (C14); whatever the interleaving, the program writes
    nothing but encoded filtered transcripts (C15, by mutual induction over
    \<open>dispatch\<close> and \<open>process_events\<close> with the invariant \<open>outputs_only\<close>); a
    Transcribe click always ends reporting completion or cancellation (C17,
    liveness); the label never rests on a transient text (C18); the text area
    always holds a lower-case string (C19, a type invariant); an unwritable save
    path raises \<^verbatim>\<open>OSError\<close> (C20); an all-advertisement result leaves Save
    enabled with nothing to save (C21); a run raises only the model's exceptions,
    those of \<^verbatim>\<open>remove_ads\<close> and \<^verbatim>\<open>OSError\<close> on an unwritable path (C24,
    \<open>raised_by\<close>); the label "Transcription Complete!" always comes with the
    transcript of the selected file (C26, the invariant \<open>complete_shows_file\<close>,
    which holds in the middle of handlers too); a new selection leaves the old
    transcript shown and saveable (C27); the saved bytes are those of Qt's plain
    text, which differs from the transcript when it holds a no-break space (C28);
    the label "Selected: x" always names the selected file (C29).
  \<^item> \<open>Window_Spec\<close>: what the window promises its user, as an abstract labelled
    transition system: the record \<open>ui\<close> (selected file, shown transcript,
    written files), the operations \<open>ui_op\<close> (select, show, save the plain text of
    the shown transcript), the step relation \<open>ui_step\<close>, its sequences
    \<open>ui_steps\<close> and reachable states \<open>ui_reach\<close>, and the refinement mapping
    \<open>ui_of\<close> from \<open>app\<close>. Every run is a sequence of abstract operations (C22,
    forward simulation by mutual induction over \<open>dispatch\<close> and
    \<open>process_events\<close>); every abstract operation enabled between events is one
    click (backward simulation); so the observable states of the program and of
    the abstract window are the same (C23).
  \<^item> this theory: the run of the whole program from start to saved file (C12).

  \<^bold>\<open>How the model corresponds to the code.\<close> Every statement of a handler that
  changes state is a record update of the definition that models it, in the
  code's order, and every early \<^verbatim>\<open>return\<close> and every exception is a branch
  (\<open>Inl\<close> for an exception, which PyQt6 turns into an abort of the process).
  Each \<^verbatim>\<open>processEvents()\<close> call delivers an arbitrary finite list of clicks, given
  by the event that started the handler; so the model covers every order in which
  the user's clicks can reach the handlers, and the recursion is structural in
  the nested event lists (no fuel is needed: each handler runs to its end once
  the events it waits for are delivered, which the totality of the \<open>fun\<close>
  \<open>dispatch\<close> shows).

  \<^bold>\<open>Not modelled.\<close> The layout, window title and geometry (no behaviour); the model
  itself (\<open>transcribe\<close> of \<open>env\<close> is any function, so every claim holds for every
  model); the loading of the model in \<^verbatim>\<open>__init__\<close>, which can only fail before any
  window exists; the dialogs' own event loops (a dialog returns a path or the empty
  string); characters beyond the Latin-1 block: a character here is a code point
  below 256, where CPython's \<^verbatim>\<open>str.lower\<close> is a one-to-one table that
  \<open>lower_char\<close> reproduces, while above it lower-casing may map a letter outside
  the block (the Kelvin sign to \<open>k\<close>) or to two characters (capital I with dot
  above), which a fixed 256-character alphabet cannot express; the segments'
  timestamps, which the code reads nowhere; of the file system, everything but
  the contents of files and whether a path can be opened for writing: directories,
  permissions as such, and a write that fails half-way (the \<^verbatim>\<open>with\<close> block then
  raises after truncating the file, which the model does not distinguish from a
  failing \<^verbatim>\<open>open\<close>); of Qt's text document, everything but the plain-text round
  trip of \<open>qt_plain_text\<close> (rich text, undo, the widget's rendering).

  \<^bold>\<open>Plan.\<close> Modelled first, in this order: the filter and its specification (the
  program's only computation), then the window's handlers and the event delivery
  with their invariants, then the whole run; then liveness, the label and text
  invariants, the save error path and the specification's laws on words; then
  the abstract window and its refinement, the exceptions of a run and the
  Latin-1 case table; last the bytes on disk, through Qt's plain text and the
  UTF-8 codec. Left open: the label's history over a run (which text the user
  last sees); the states reachable in the middle of a handler as an
  \<^theory_text>\<open>inductive\<close> relation over nested deliveries; an executable check of
  \<open>reachable\<close> for bounded runs; strings over all Unicode code points, with
  \<^verbatim>\<open>str.lower\<close>, Qt's plain text and UTF-8 as tables beyond the Latin-1 block.
\<close>

section \<open>The whole program\<close>

text \<open>
  C12. From start to saved file: selecting a file, transcribing it without
  interruption and saving to a writable path stores in that file the UTF-8 bytes
  of Qt's plain text of the filtered transcript, the specification's string, and
  the label reports completion.
\<close>

theorem select_transcribe_save:
  assumes "p \<noteq> []" and "transcribe env p = Inr r"
    and "res_segments r = Some segs" and "those (map seg_text segs) = Some ts"
    and "filter_spec ad_keywords ts \<noteq> []" and "q \<noteq> []" and "can_write env q"
  shows "\<exists>s. run env fs [ClickSelect p, ClickTranscribe [], ClickSave q] = Inr s \<and>
             files s q = Some (utf8_encode (qt_plain_text (filter_spec ad_keywords ts))) \<and> label s = Complete"
proof -
  from assms(3,4) have "remove_ads r = Inr (filter_spec ad_keywords ts)"
    by (simp add: remove_ads_def remove_ads_with_eq)
  with assms show ?thesis
    by (simp add: run_def init_app_def handler_simps transcribe_end_def)
qed

theorem select_transcribe_save_witness:
  "\<exists>s. run demo_env Map.empty [ClickSelect ''a.mp3'', ClickTranscribe [], ClickSave ''out.txt''] = Inr s \<and>
       files s ''out.txt'' = Some (utf8_encode (qt_plain_text (filter_spec ad_keywords ['' Hi'']))) \<and> label s = Complete"
proof -
  have f: "filter_spec ad_keywords ['' Hi''] = '' hi''" by code_simp
  show ?thesis
    by (rule select_transcribe_save)
      (simp add: demo_env_def demo_result_def mk_seg_def f)+
qed

end
